theory Spec2Isabelle
  imports Main "HOL-Library.Word" "HOL-Library.Sublist"
begin

section \<open>JavaScript strings\<close>

text \<open>
  A JavaScript string is a sequence of UTF-16 code units; \<open>length\<close>, \<open>substring\<close>, the
  regular expressions without the \<open>u\<close> flag and \<open>trim\<close> all work on code units. The
  model keeps that: a string is a list of 16-bit words. \<open>js\<close> writes an ASCII literal of
  the source as code units.
\<close>

type_synonym jschar = "16 word"
type_synonym jsstring = "jschar list"

definition js :: "string \<Rightarrow> jsstring" where
  "js s = map of_char s"

text \<open>
  The class \<open>\s\<close> of a JavaScript regular expression, which is also what
  \<open>String.prototype.trim\<close> strips (WhiteSpace and LineTerminator of ECMAScript):
  TAB, LF, VT, FF, CR, SP, NBSP, U+1680, U+2000..U+200A, LS, PS, U+202F, U+205F, U+3000
  and the BOM.
\<close>

definition isWhiteSpace :: "jschar \<Rightarrow> bool" where
  "isWhiteSpace c =
     (c = 0x09 \<or> c = 0x0A \<or> c = 0x0B \<or> c = 0x0C \<or> c = 0x0D \<or> c = 0x20 \<or> c = 0xA0
      \<or> c = 0x1680 \<or> (0x2000 \<le> c \<and> c \<le> 0x200A) \<or> c = 0x2028 \<or> c = 0x2029
      \<or> c = 0x202F \<or> c = 0x205F \<or> c = 0x3000 \<or> c = 0xFEFF)"

text \<open>\<open>s.trim()\<close>: white space is dropped at both ends.\<close>

definition trim :: "jsstring \<Rightarrow> jsstring" where
  "trim s = rev (dropWhile isWhiteSpace (rev (dropWhile isWhiteSpace s)))"

text \<open>
  \<open>s.replace(/\s+/g, ' ')\<close>: every maximal run of white space becomes one space
  (U+0020). The regular expression is greedy, so a match that starts at a white-space
  character takes the whole run.
\<close>

function collapseWhitespace :: "jsstring \<Rightarrow> jsstring" where
  "collapseWhitespace [] = []"
| "collapseWhitespace (c # cs) =
     (if isWhiteSpace c then 0x20 # collapseWhitespace (dropWhile isWhiteSpace cs)
      else c # collapseWhitespace cs)"
  by pat_completeness auto
termination
  by (relation "measure length") (auto simp: le_imp_less_Suc length_dropWhile_le)

text \<open>The helper \<open>cleanText\<close> of \<open>extractPageInfo\<close> (crawler.js, lines 270-272).\<close>

definition cleanText :: "jsstring \<Rightarrow> jsstring" where
  "cleanText t = trim (collapseWhitespace t)"

text \<open>
  \<open>s.split(/\s+/)\<close>: the pieces between the maximal white-space runs. A run at the
  start or at the end of the string leaves an empty piece there, and the empty string
  splits into one empty piece (the pattern does not match the empty string).
\<close>

function splitWhitespace :: "jsstring \<Rightarrow> jsstring list" where
  "splitWhitespace s =
     (case dropWhile (\<lambda>c. \<not> isWhiteSpace c) s of
        [] \<Rightarrow> [s]
      | c # rest \<Rightarrow>
          takeWhile (\<lambda>c. \<not> isWhiteSpace c) s # splitWhitespace (dropWhile isWhiteSpace rest))"
  by pat_completeness auto
termination
proof (relation "measure length", goal_cases)
  case 1
  show ?case by simp
next
  case (2 s c rest)
  have "length (dropWhile isWhiteSpace rest) \<le> length rest"
    by (rule length_dropWhile_le)
  also have "length rest < length (dropWhile (\<lambda>c. \<not> isWhiteSpace c) s)"
    using 2 by simp
  also have "\<dots> \<le> length s"
    by (rule length_dropWhile_le)
  finally show ?case by simp
qed

declare splitWhitespace.simps [simp del]

text \<open>
  Reading time (crawler.js, lines 372-373 and line 160):
  \<open>Math.ceil(content.split(/\s+/).length / 200)\<close>. The word count is a positive integer
  far below \<open>2^53\<close>, so the floating-point quotient rounds up to the integer ceiling.
\<close>

definition readingTimeOf :: "jsstring \<Rightarrow> nat" where
  "readingTimeOf content = (length (splitWhitespace content) + 199) div 200"

section \<open>Boilerplate stripping\<close>

text \<open>
  Each entry of \<open>commentPatterns\<close> (crawler.js, lines 327-341) is a regular expression
  \<open>/<literal>.*$/s\<close>: the literal text, then \<open>.*\<close> (with the flag \<open>s\<close> the dot matches
  every code unit, line breaks too), then the end of the input. \<open>content.replace(p, '')\<close>
  replaces the leftmost match: the match starts at the first position where the literal
  occurs and always runs to the end of the string. So the string is cut at the first
  occurrence of the literal, and is unchanged when the literal does not occur.
\<close>

fun cutAtFirst :: "jsstring \<Rightarrow> jsstring \<Rightarrow> jsstring" where
  "cutAtFirst lit [] = []"
| "cutAtFirst lit (c # cs) = (if prefix lit (c # cs) then [] else c # cutAtFirst lit cs)"

definition commentPatterns :: "jsstring list" where
  "commentPatterns =
     [js ''Login to track your progress'',
      js ''Not sure where your gaps are?'',
      js ''Schedule a mock interview'',
      js ''Login to Join the Discussion'',
      js ''Your account is free'',
      js ''Sort By'',
      js ''Questions'',
      js ''Learn'',
      js ''Links'',
      js ''Legal'',
      js ''Contact'',
      [0xA9],
      js ''All rights reserved'']"

text \<open>
  \<open>commentPatterns.forEach(pattern => { content = content.replace(pattern, '') })\<close>,
  in the order of the array.
\<close>

definition removeCommentSections :: "jsstring \<Rightarrow> jsstring" where
  "removeCommentSections content = foldl (\<lambda>acc p. cutAtFirst p acc) content commentPatterns"

text \<open>
  Lines 343-348: the patterns are applied, then the white space is collapsed and trimmed
  once more.
\<close>

definition stripBoilerplate :: "jsstring \<Rightarrow> jsstring" where
  "stripBoilerplate content = trim (collapseWhitespace (removeCommentSections content))"

section \<open>Numbers as text\<close>

text \<open>
  Template literals write a number in decimal (\<open>`${index}-`\<close>, \<open>`${index + 1}.`\<close>).
  Only integers occur.
\<close>

function showNat :: "nat \<Rightarrow> jsstring" where
  "showNat n = (if n < 10 then [of_nat (48 + n)] else showNat (n div 10) @ [of_nat (48 + n mod 10)])"
  by pat_completeness auto
termination
  by (relation "measure id") auto

declare showNat.simps [simp del]

definition showInt :: "int \<Rightarrow> jsstring" where
  "showInt i = (if i < 0 then 0x2D # showNat (nat (- i)) else showNat (nat i))"

section \<open>Errors\<close>

text \<open>
  Every exception of the source is a value. \<open>TimeoutError\<close> is what Playwright's waits
  reject with, \<open>TypeError\<close> what \<open>new URL\<close> throws on an invalid URL, \<open>SyntaxError\<close>
  what \<open>new RegExp\<close> throws; \<open>OtherError\<close> is any other rejection of the browser or of
  the file system, among them the plain \<open>Error\<close> that \<open>page.evaluate\<close> rejects with when
  the script it runs in the page throws. The code only ever reads \<open>error.message\<close>.
\<close>

datatype error =
    TimeoutError jsstring
  | TypeError jsstring
  | SyntaxError jsstring
  | OtherError jsstring

fun message :: "error \<Rightarrow> jsstring" where
  "message (TimeoutError m) = m"
| "message (TypeError m) = m"
| "message (SyntaxError m) = m"
| "message (OtherError m) = m"

section \<open>The document\<close>

text \<open>
  The DOM as the code reads and changes it: a tree of text nodes and elements. An element
  has its tag name (lower case, as selectors match it in an HTML document), its \<open>id\<close>
  (empty when it has none), its \<open>classList\<close>, its other attributes and its child nodes.
\<close>

datatype node =
    TextNode jsstring
  | Element jsstring jsstring "jsstring list" "(jsstring \<times> jsstring) list" "node list"

text \<open>
  The selectors the source uses: a tag (\<open>main\<close>), a class (\<open>.content\<close>), an id
  (\<open>#markdown\<close>), an attribute with a value (\<open>[role="main"]\<close>), an attribute that is
  present (\<open>[href]\<close>), and compounds of these (\<open>meta[name="description"]\<close>). A selector
  list (\<open>nav, header, footer\<close>) is a list of selectors.
\<close>

datatype selector =
    ByTag jsstring
  | ByClass jsstring
  | ById jsstring
  | AttrEquals jsstring jsstring
  | HasAttr jsstring
  | Both selector selector

fun matches :: "selector \<Rightarrow> node \<Rightarrow> bool" where
  "matches sel (TextNode t) = False"
| "matches (ByTag t) (Element tag ident cls attrs kids) = (tag = t)"
| "matches (ByClass c) (Element tag ident cls attrs kids) = (c \<in> set cls)"
| "matches (ById i) (Element tag ident cls attrs kids) = (ident = i)"
| "matches (AttrEquals a v) (Element tag ident cls attrs kids) = (map_of attrs a = Some v)"
| "matches (HasAttr a) (Element tag ident cls attrs kids) = (map_of attrs a \<noteq> None)"
| "matches (Both p q) (Element tag ident cls attrs kids) =
     (matches p (Element tag ident cls attrs kids) \<and> matches q (Element tag ident cls attrs kids))"

definition matchesAny :: "selector list \<Rightarrow> node \<Rightarrow> bool" where
  "matchesAny sels n = list_ex (\<lambda>sel. matches sel n) sels"

text \<open>The elements of a subtree in document order, the root first.\<close>

fun elementsOf :: "node \<Rightarrow> node list" where
  "elementsOf (TextNode t) = []"
| "elementsOf (Element tag ident cls attrs kids) =
     Element tag ident cls attrs kids # concat (map elementsOf kids)"

fun childrenOf :: "node \<Rightarrow> node list" where
  "childrenOf (TextNode t) = []"
| "childrenOf (Element tag ident cls attrs kids) = kids"

text \<open>\<open>element.querySelector\<close> and \<open>element.querySelectorAll\<close> search the descendants.\<close>

definition descendantsOf :: "node \<Rightarrow> node list" where
  "descendantsOf n = concat (map elementsOf (childrenOf n))"

fun getAttribute :: "node \<Rightarrow> jsstring \<Rightarrow> jsstring option" where
  "getAttribute (TextNode t) a = None"
| "getAttribute (Element tag ident cls attrs kids) a = map_of attrs a"

text \<open>\<open>node.textContent\<close>: the text of all text nodes below the node, in order.\<close>

fun textContent :: "node \<Rightarrow> jsstring" where
  "textContent (TextNode t) = t"
| "textContent (Element tag ident cls attrs kids) = concat (map textContent kids)"

text \<open>
  \<open>root.querySelectorAll(list).forEach(el => el.remove())\<close>: every descendant element
  that matches one of the selectors leaves the tree, with all below it.
\<close>

fun removeMatching :: "selector list \<Rightarrow> node \<Rightarrow> node" where
  "removeMatching sels (TextNode t) = TextNode t"
| "removeMatching sels (Element tag ident cls attrs kids) =
     Element tag ident cls attrs
       (map (removeMatching sels) (filter (\<lambda>k. \<not> matchesAny sels k) kids))"

text \<open>
  A loaded HTML document: \<open>window.location.href\<close>, \<open>document.title\<close>, the children of
  \<open>head\<close> other than \<open>title\<close>, and the \<open>body\<close> element (the HTML parser gives every page
  one). The \<open>html\<close>, \<open>head\<close> and \<open>title\<close> elements themselves are not nodes of the model:
  they are taken to carry no \<open>id\<close>, class or attribute that a selector of the source names.
\<close>

record document =
  docHref :: jsstring
  docTitle :: jsstring
  docHead :: "node list"
  docBody :: node

definition documentElements :: "document \<Rightarrow> node list" where
  "documentElements d = concat (map elementsOf (docHead d)) @ elementsOf (docBody d)"

text \<open>\<open>document.querySelector(sel)\<close>: the first matching element in document order.\<close>

definition querySelector :: "selector \<Rightarrow> document \<Rightarrow> node option" where
  "querySelector sel d = find (matches sel) (documentElements d)"

text \<open>
  The document of a page while the scripts of the crawler change it. A script can remove
  the \<open>body\<close> element itself; \<open>document.body\<close> is \<open>null\<close> from then on, until the next
  navigation loads a new document.
\<close>

record liveDocument =
  liveHref :: jsstring
  liveTitle :: jsstring
  liveHead :: "node list"
  liveBody :: "node option"

text \<open>A document as it was loaded, its body in place.\<close>

definition attached :: "document \<Rightarrow> liveDocument" where
  "attached d =
     \<lparr>liveHref = docHref d, liveTitle = docTitle d, liveHead = docHead d, liveBody = Some (docBody d)\<rparr>"

definition headElements :: "liveDocument \<Rightarrow> node list" where
  "headElements l = concat (map elementsOf (liveHead l))"

definition liveElements :: "liveDocument \<Rightarrow> node list" where
  "liveElements l =
     headElements l @ (case liveBody l of None \<Rightarrow> [] | Some body \<Rightarrow> elementsOf body)"

definition liveQuerySelector :: "selector \<Rightarrow> liveDocument \<Rightarrow> node option" where
  "liveQuerySelector sel l = find (matches sel) (liveElements l)"

section \<open>The collaborators\<close>

text \<open>
  The failures that the code brings about itself: a wait for a selector or for a
  function that runs out of time (the number is the time waited, in milliseconds), and a
  script of the crawler that sets \<open>innerHTML\<close> (line 445) or reads \<open>innerText\<close> (line 152)
  of \<open>document.body\<close> when the body is gone.
\<close>

datatype fault =
    SelectorTimeout selector nat
  | FunctionTimeout nat
  | BodyInnerHTML
  | BodyInnerText

text \<open>
  What the code asks of the browser engine, the site, the file system and the runtime
  library, and cannot compute itself. The theorems hold for every such world.
  \<^item> \<open>innerText\<close> and \<open>visible\<close>: the rendered text of an element that is attached to a
    document, and whether the element is visible (both depend on layout and CSS).
  \<^item> \<open>faultMessage\<close>: the text of \<open>error.message\<close> for a fault; it is the driver's and the
    engine's wording (the name of the call, the time, a call log, a stack).
  \<^item> \<open>goto t url\<close>: what \<open>page.goto(url, {waitUntil: 'networkidle'})\<close> gives when it is
    the navigation number \<open>t\<close> of the session: an error, or the loaded document.
  \<^item> \<open>afterExpand\<close>: the document after \<open>expandAccordions\<close> has clicked the collapsed
    controls. \<open>expandAccordions\<close> (lines 991-1066) catches every error inside itself,
    so it never throws; what the clicks do to the page is the site's script.
  \<^item> \<open>pdfFailure\<close>, \<open>writeFailure\<close>: whether \<open>page.pdf\<close> and \<open>fs.writeFile\<close> reject.
  \<^item> \<open>urlPathname\<close>: \<open>new URL(url).pathname\<close>, a \<open>TypeError\<close> for an invalid URL;
    \<open>resolveUrl\<close>: \<open>new URL(href, window.location.origin).href\<close>; \<open>pathJoin\<close>:
    \<open>path.join\<close>.
  \<^item> \<open>isoDate\<close> is \<open>new Date().toISOString().split('T')[0]\<close> and \<open>localeDate\<close> is
    \<open>new Date().toLocaleDateString()\<close>; the date is taken not to change during a run.
  \<^item> \<open>regExpI p\<close>: \<open>new RegExp(p, 'i')\<close>, a \<open>SyntaxError\<close> for an invalid pattern,
    otherwise the function \<open>regex.test\<close>.
\<close>

record world =
  innerText :: "liveDocument \<Rightarrow> node \<Rightarrow> jsstring"
  visible :: "document \<Rightarrow> node \<Rightarrow> bool"
  faultMessage :: "fault \<Rightarrow> jsstring"
  goto :: "nat \<Rightarrow> jsstring \<Rightarrow> error + document"
  afterExpand :: "document \<Rightarrow> document"
  pdfFailure :: "nat \<Rightarrow> jsstring \<Rightarrow> error option"
  writeFailure :: "nat \<Rightarrow> jsstring \<Rightarrow> error option"
  urlPathname :: "jsstring \<Rightarrow> error + jsstring"
  resolveUrl :: "jsstring \<Rightarrow> jsstring \<Rightarrow> jsstring"
  pathJoin :: "jsstring \<Rightarrow> jsstring \<Rightarrow> jsstring"
  isoDate :: jsstring
  localeDate :: jsstring
  regExpI :: "jsstring \<Rightarrow> error + (jsstring \<Rightarrow> bool)"

text \<open>
  The error a fault is raised as: a \<open>TimeoutError\<close> for a wait, and for a script that
  threw the \<open>Error\<close> that \<open>page.evaluate\<close> rejects with.
\<close>

fun rejection :: "world \<Rightarrow> fault \<Rightarrow> error" where
  "rejection w (SelectorTimeout sel ms) = TimeoutError (faultMessage w (SelectorTimeout sel ms))"
| "rejection w (FunctionTimeout ms) = TimeoutError (faultMessage w (FunctionTimeout ms))"
| "rejection w BodyInnerHTML = OtherError (faultMessage w BodyInnerHTML)"
| "rejection w BodyInnerText = OtherError (faultMessage w BodyInnerText)"

section \<open>Waiting for content (crawler.js, lines 194-265)\<close>

text \<open>
  \<open>page.waitForSelector(sel, {timeout})\<close> resolves when the first element matching the
  selector is visible, and rejects with a \<open>TimeoutError\<close> when that does not happen in
  time. The document is the page as it stands once \<open>goto\<close> has resolved at network idle,
  and it is taken not to change while the code waits: a wait succeeds exactly when its
  condition holds of that document.
\<close>

definition waitForSelector :: "world \<Rightarrow> document \<Rightarrow> selector \<Rightarrow> nat \<Rightarrow> error + node" where
  "waitForSelector w d sel ms =
     (case querySelector sel d of
        None \<Rightarrow> Inl (rejection w (SelectorTimeout sel ms))
      | Some el \<Rightarrow> if visible w d el then Inr el else Inl (rejection w (SelectorTimeout sel ms)))"

definition markdownSelector :: selector where
  "markdownSelector = ById (js ''markdown'')"

definition contentSelectors :: "selector list" where
  "contentSelectors =
     [ByTag (js ''main''),
      ByClass (js ''main-content''),
      ByTag (js ''article''),
      ByClass (js ''content''),
      ByClass (js ''post-content''),
      ByClass (js ''article-content''),
      AttrEquals (js ''role'') (js ''main''),
      ByClass (js ''prose''),
      ByClass (js ''markdown-body'')]"

text \<open>
  The loop of lines 220-231: the selectors are waited for one after the other, and the
  first that is found ends the loop.
\<close>

fun firstFound :: "world \<Rightarrow> document \<Rightarrow> selector list \<Rightarrow> selector option" where
  "firstFound w d [] = None"
| "firstFound w d (sel # sels) =
     (case waitForSelector w d sel 5000 of
        Inr el \<Rightarrow> Some sel
      | Inl e \<Rightarrow> firstFound w d sels)"

text \<open>
  The last wait (lines 259-261) is
  \<open>page.waitForFunction(() => document.body.innerText.length > 100, {timeout: 10000})\<close>.
  The parameters of \<open>waitForFunction\<close> are \<open>(pageFunction, arg, options)\<close>: the object
  \<open>{timeout: 10000}\<close> stands in the place of \<open>arg\<close>, it is handed to the function, which
  takes no parameter, and no options are given. So the wait runs for the default time of
  the driver, 30000 ms (the source never calls \<open>setDefaultTimeout\<close>), not for 10000 ms.
\<close>

definition defaultTimeout :: nat where
  "defaultTimeout = 30000"

text \<open>
  \<open>waitForContent\<close> returns the document as \<open>expandAccordions\<close> leaves it, or the error
  of the last wait, which is not inside a \<open>try\<close>. The script of lines 234-256 between the
  loop and the last wait only reads the page, for two lines of the log.
\<close>

definition waitForContent :: "world \<Rightarrow> document \<Rightarrow> error + document" where
  "waitForContent w d =
     (case waitForSelector w d markdownSelector 5000 of
        Inr el \<Rightarrow> Inr (afterExpand w d)
      | Inl e \<Rightarrow>
          (case firstFound w d contentSelectors of
             Some sel \<Rightarrow> Inr (afterExpand w d)
           | None \<Rightarrow>
               if 100 < length (innerText w (attached d) (docBody d)) then Inr (afterExpand w d)
               else Inl (rejection w (FunctionTimeout defaultTimeout))))"

section \<open>Extraction (crawler.js, lines 267-391)\<close>

record pageMetadata =
  description :: jsstring
  metaKeywords :: jsstring
  author :: jsstring
  publishedDate :: jsstring
  readingTime :: nat

record debugInfo =
  usedSelector :: "selector option"
  contentLength :: nat
  markdownFound :: bool
  markdownLength :: nat

record pageInfo =
  title :: jsstring
  content :: jsstring
  metadata :: pageMetadata
  url :: jsstring
  debug :: debugInfo

definition chromeSelectors :: "selector list" where
  "chromeSelectors =
     [ByTag (js ''nav''), ByTag (js ''header''), ByTag (js ''footer''),
      ByClass (js ''nav''), ByClass (js ''header''), ByClass (js ''footer''),
      ByClass (js ''sidebar''), ByClass (js ''menu''), ByClass (js ''navigation''),
      ByClass (js ''breadcrumb''), ByClass (js ''pagination''), ByClass (js ''comments''),
      ByClass (js ''comment''), ByClass (js ''comment-section''),
      ByClass (js ''comment-thread''), ByClass (js ''comment-list''),
      ByClass (js ''comment-form''), ByClass (js ''comments-container''),
      ByClass (js ''advertisement''), ByClass (js ''ads''), ByClass (js ''discussion''),
      ByClass (js ''forum''), ByClass (js ''chat''), ByClass (js ''chat-box''),
      ByClass (js ''chat-widget'')]"

text \<open>\<open>element && element.innerText.trim().length > 100\<close>\<close>

definition hasLongText :: "world \<Rightarrow> document \<Rightarrow> node \<Rightarrow> bool" where
  "hasLongText w d el = (100 < length (trim (innerText w (attached d) el)))"

text \<open>The loop of lines 299-306, which breaks at the first selector with a long text.\<close>

fun firstLong :: "world \<Rightarrow> document \<Rightarrow> selector list \<Rightarrow> (selector \<times> node) option" where
  "firstLong w d [] = None"
| "firstLong w d (sel # sels) =
     (case querySelector sel d of
        None \<Rightarrow> firstLong w d sels
      | Some el \<Rightarrow> if hasLongText w d el then Some (sel, el) else firstLong w d sels)"

text \<open>
  Lines 277-321: \<open>usedSelector\<close> and \<open>mainContent\<close>. When nothing was chosen,
  \<open>mainContent\<close> is a clone of the body without the chrome elements.
\<close>

definition selectMainContent :: "world \<Rightarrow> document \<Rightarrow> selector option \<times> node" where
  "selectMainContent w d =
     (let chosen =
        (case querySelector markdownSelector d of
           None \<Rightarrow> firstLong w d contentSelectors
         | Some markdownElement \<Rightarrow>
             if hasLongText w d markdownElement then Some (markdownSelector, markdownElement)
             else firstLong w d contentSelectors)
      in case chosen of
           Some (sel, el) \<Rightarrow> (Some sel, el)
         | None \<Rightarrow> (None, removeMatching chromeSelectors (docBody d)))"

text \<open>
  \<open>mainContent.innerText\<close>. The clone of the body is not attached to the document, so it
  is not rendered, and \<open>innerText\<close> of an element that is not rendered is its
  \<open>textContent\<close> (HTML standard, the innerText getter).
\<close>

definition mainContentText :: "world \<Rightarrow> document \<Rightarrow> selector option \<times> node \<Rightarrow> jsstring" where
  "mainContentText w d chosen =
     (case chosen of
        (Some sel, el) \<Rightarrow> innerText w (attached d) el
      | (None, bodyClone) \<Rightarrow> textContent bodyClone)"

text \<open>\<open>meta[name="..."]\<close> and \<open>getAttribute('content') || ''\<close> (lines 359-369).\<close>

definition metaContent :: "document \<Rightarrow> jsstring \<Rightarrow> jsstring" where
  "metaContent d name =
     (case querySelector (Both (ByTag (js ''meta'')) (AttrEquals (js ''name'') name)) d of
        None \<Rightarrow> []
      | Some el \<Rightarrow> (case getAttribute el (js ''content'') of None \<Rightarrow> [] | Some v \<Rightarrow> v))"

definition extractPageInfo :: "world \<Rightarrow> document \<Rightarrow> pageInfo" where
  "extractPageInfo w d =
     (let chosen = selectMainContent w d;
          text = stripBoilerplate (cleanText (mainContentText w d chosen))
      in \<lparr>title = cleanText (docTitle d),
          content = text,
          metadata = \<lparr>description = metaContent d (js ''description''),
                      metaKeywords = metaContent d (js ''keywords''),
                      author = metaContent d (js ''author''),
                      publishedDate = [],
                      readingTime = readingTimeOf text\<rparr>,
          url = docHref d,
          debug = \<lparr>usedSelector = fst chosen,
                   contentLength = length text,
                   markdownFound = (querySelector markdownSelector d \<noteq> None),
                   markdownLength =
                     (case querySelector markdownSelector d of
                        None \<Rightarrow> 0
                      | Some el \<Rightarrow> length (trim (innerText w (attached d) el)))\<rparr>\<rparr>)"

section \<open>The crawler and its session\<close>

text \<open>
  The fields the constructor sets and nothing assigns afterwards (lines 6-17) are the
  configuration. \<open>retries\<close> is \<open>options.retries || 3\<close>, a number. Of a cookie the code
  reads the name, the value and the domain.
\<close>

record cookie =
  cookieName :: jsstring
  cookieValue :: jsstring
  cookieDomain :: jsstring

record config =
  outputDir :: jsstring
  retries :: int
  pdfStrategy :: jsstring
  cookies :: "cookie list"

text \<open>
  The document built by the clean strategy (lines 677-782): the fixed markup and style
  sheet of the template are constant text; these are the values interpolated into it, in
  the order of the template. The description and the author lines are present when the
  text is not empty. The body is \<open>formatContentForPDF(pageInfo.content)\<close>, a function of
  the content alone.
\<close>

record cleanDocument =
  cleanTitle :: jsstring
  cleanSource :: jsstring
  cleanDate :: jsstring
  cleanReadingTime :: nat
  cleanDescription :: "jsstring option"
  cleanAuthor :: "jsstring option"
  cleanContent :: jsstring

text \<open>
  What a run leaves in the output directory: the print of a live page's document, the
  print of a clean document, or a text file.
\<close>

datatype artifact =
    PagePdf liveDocument
  | CleanPdf cleanDocument
  | TextFile jsstring

text \<open>
  The browser session as the code changes it: the document of \<open>this.page\<close>, the number
  of navigations so far (the collaborators answer by it), the files written, in order,
  and the documents of the pages that \<open>browser.newPage()\<close> opened and nothing closed.
\<close>

record browser =
  page :: liveDocument
  clock :: nat
  files :: "(jsstring \<times> artifact) list"
  openPages :: "cleanDocument list"

section \<open>Artifacts (crawler.js, lines 393-428, 430-673, 675-804, 821-846)\<close>

text \<open>\<open>pathname.split('/')\<close>\<close>

fun splitOn :: "jschar \<Rightarrow> jsstring \<Rightarrow> jsstring list" where
  "splitOn sep [] = [[]]"
| "splitOn sep (c # cs) =
     (if c = sep then [] # splitOn sep cs
      else (case splitOn sep cs of [] \<Rightarrow> [[c]] | piece # pieces \<Rightarrow> (c # piece) # pieces))"

text \<open>\<open>pieces.join('-')\<close>\<close>

fun joinWith :: "jschar \<Rightarrow> jsstring list \<Rightarrow> jsstring" where
  "joinWith sep [] = []"
| "joinWith sep [piece] = piece"
| "joinWith sep (piece # pieces) = piece @ sep # joinWith sep pieces"

text \<open>The class \<open>[a-zA-Z0-9-]\<close>.\<close>

definition isSafeChar :: "jschar \<Rightarrow> bool" where
  "isSafeChar c =
     ((0x61 \<le> c \<and> c \<le> 0x7A) \<or> (0x41 \<le> c \<and> c \<le> 0x5A) \<or> (0x30 \<le> c \<and> c \<le> 0x39) \<or> c = 0x2D)"

text \<open>
  Lines 394-398 and 822-826: the file name without index and extension,
  \<open>`${safeFilename}-${timestamp}`\<close>. \<open>new URL(url)\<close> throws for an invalid URL.
\<close>

definition fileStem :: "world \<Rightarrow> jsstring \<Rightarrow> error + jsstring" where
  "fileStem w u =
     (case urlPathname w u of
        Inl e \<Rightarrow> Inl e
      | Inr pathname \<Rightarrow>
          (let pathSegments = filter (\<lambda>piece. piece \<noteq> []) (splitOn 0x2F pathname);
               filename = (if pathSegments \<noteq> [] then joinWith 0x2D pathSegments else js ''page'');
               safeFilename = map (\<lambda>c. if isSafeChar c then c else 0x2D) filename
           in Inr (safeFilename @ js ''-'' @ isoDate w)))"

text \<open>\<open>index !== null ? `${index}-` : ''\<close>\<close>

definition indexPrefix :: "int option \<Rightarrow> jsstring" where
  "indexPrefix index = (case index of None \<Rightarrow> [] | Some i \<Rightarrow> showInt i @ js ''-'')"

text \<open>
  \<open>path.join(this.outputDir, `${indexPrefix}${safeFilename}-${timestamp}.<ext>`)\<close>
\<close>

definition artifactPath :: "world \<Rightarrow> config \<Rightarrow> jsstring \<Rightarrow> int option \<Rightarrow> jsstring \<Rightarrow> error + jsstring" where
  "artifactPath w cfg u index ext =
     (case fileStem w u of
        Inl e \<Rightarrow> Inl e
      | Inr stem \<Rightarrow> Inr (pathJoin w (outputDir cfg) (indexPrefix index @ stem @ ext)))"

text \<open>\<open>generateBasicPDF\<close>: the page is printed as it is.\<close>

definition generateBasicPDF :: "world \<Rightarrow> browser \<Rightarrow> jsstring \<Rightarrow> pageInfo \<Rightarrow> (error + jsstring) \<times> browser" where
  "generateBasicPDF w b pdfPath info =
     (case pdfFailure w (clock b) pdfPath of
        Some e \<Rightarrow> (Inl e, b)
      | None \<Rightarrow> (Inr pdfPath, b\<lparr>files := files b @ [(pdfPath, PagePdf (page b))]\<rparr>))"

definition enhancedRemovals :: "selector list" where
  "enhancedRemovals =
     [ByTag (js ''nav''), ByClass (js ''nav''), ByClass (js ''navigation''),
      ByClass (js ''sidebar''), ByClass (js ''menu''), ByClass (js ''breadcrumb''),
      ByClass (js ''pagination''), ByClass (js ''comments''), ByClass (js ''comment''),
      ByClass (js ''comment-section''), ByClass (js ''comment-thread''),
      ByClass (js ''comment-list''), ByClass (js ''comment-form''),
      ByClass (js ''comments-container''), ByClass (js ''advertisement''),
      ByClass (js ''ads''), ByClass (js ''social-share''), ByClass (js ''related-posts''),
      ByTag (js ''footer''), ByClass (js ''footer''), ByClass (js ''discussion''),
      ByClass (js ''forum''), ByClass (js ''chat''), ByClass (js ''chat-box''),
      ByClass (js ''chat-widget'')]"

text \<open>
  \<open>document.querySelectorAll(list).forEach(el => el.remove())\<close> on the live document
  (lines 434-437). \<open>querySelectorAll\<close> of the document searches all its elements, the
  body too: a body that matches one of the selectors is removed with all below it.
\<close>

definition removeFromDocument :: "selector list \<Rightarrow> liveDocument \<Rightarrow> liveDocument" where
  "removeFromDocument sels l =
     l\<lparr>liveHead := map (removeMatching sels) (filter (\<lambda>k. \<not> matchesAny sels k) (liveHead l)),
       liveBody :=
         (case liveBody l of
            None \<Rightarrow> None
          | Some body \<Rightarrow> if matchesAny sels body then None else Some (removeMatching sels body))\<rparr>"

fun replaceChildren :: "node \<Rightarrow> node list \<Rightarrow> node" where
  "replaceChildren (TextNode t) kids = TextNode t"
| "replaceChildren (Element tag ident cls attrs old) kids = Element tag ident cls attrs kids"

text \<open>
  Lines 441-451, when \<open>document.querySelector('#markdown')\<close> finds an element:
  \<open>document.body.innerHTML = ''\<close>, which throws when the body is gone; then a new \<open>div\<close>
  with the id \<open>markdown\<close> and the markup of the markdown element is appended to the body.
  The markdown element keeps its children when the body is cleared, unless it is the body
  itself (no element of the head matches and the body does): then it is empty by the time
  its markup is read.
\<close>

definition keepMarkdownOnly :: "world \<Rightarrow> liveDocument \<Rightarrow> error + liveDocument" where
  "keepMarkdownOnly w l =
     (case liveQuerySelector markdownSelector l of
        None \<Rightarrow> Inr l
      | Some markdownElement \<Rightarrow>
          (case liveBody l of
             None \<Rightarrow> Inl (rejection w BodyInnerHTML)
           | Some body \<Rightarrow>
               (let markup =
                      (if find (matches markdownSelector) (headElements l) = None
                          \<and> matches markdownSelector body
                       then [] else childrenOf markdownElement)
                in Inr (l\<lparr>liveBody :=
                            Some (replaceChildren body
                                    [Element (js ''div'') (js ''markdown'') [] [] markup])\<rparr>))))"

text \<open>
  The \<open>style\<close> element of lines 453-641. No code reads the style sheet, so its text is
  cut short here.
\<close>

definition printStyle :: node where
  "printStyle = Element (js ''style'') [] [] [] [TextNode (js ''@media print { ... }'')]"

text \<open>
  The script that \<open>generateEnhancedPDF\<close> runs in the page (lines 432-642): the error it
  throws, if any, and the document as it leaves it. When it throws, the elements are
  removed already and the style is not added yet.
\<close>

definition makePrintFriendly :: "world \<Rightarrow> pageInfo \<Rightarrow> liveDocument \<Rightarrow> error option \<times> liveDocument" where
  "makePrintFriendly w info l =
     (let l1 = removeFromDocument enhancedRemovals l
      in case (if markdownFound (debug info) \<and> 1000 < markdownLength (debug info)
               then keepMarkdownOnly w l1 else Inr l1) of
           Inl e \<Rightarrow> (Some e, l1)
         | Inr l2 \<Rightarrow> (None, l2\<lparr>liveHead := liveHead l2 @ [printStyle]\<rparr>))"

definition generateEnhancedPDF :: "world \<Rightarrow> browser \<Rightarrow> jsstring \<Rightarrow> pageInfo \<Rightarrow> (error + jsstring) \<times> browser" where
  "generateEnhancedPDF w b pdfPath info =
     (case makePrintFriendly w info (page b) of
        (Some e, l) \<Rightarrow> (Inl e, b\<lparr>page := l\<rparr>)
      | (None, l) \<Rightarrow>
          (let b1 = b\<lparr>page := l\<rparr>
           in case pdfFailure w (clock b1) pdfPath of
                Some e \<Rightarrow> (Inl e, b1)
              | None \<Rightarrow> (Inr pdfPath, b1\<lparr>files := files b1 @ [(pdfPath, PagePdf (page b1))]\<rparr>)))"

text \<open>\<open>s ? `...${s}...` : ''\<close>: the line is there when the string is not empty.\<close>

definition whenPresent :: "jsstring \<Rightarrow> jsstring option" where
  "whenPresent s = (if s = [] then None else Some s)"

definition cleanHTML :: "world \<Rightarrow> pageInfo \<Rightarrow> cleanDocument" where
  "cleanHTML w info =
     \<lparr>cleanTitle = title info,
      cleanSource = url info,
      cleanDate = localeDate w,
      cleanReadingTime = readingTime (metadata info),
      cleanDescription = whenPresent (description (metadata info)),
      cleanAuthor = whenPresent (author (metadata info)),
      cleanContent = content info\<rparr>"

text \<open>
  \<open>generateCleanPDF\<close> (lines 784-803): a new page is opened and given the clean
  document, the new page is printed, and the new page is closed. When the print fails
  the error leaves the function before \<open>newPage.close()\<close>.
\<close>

definition generateCleanPDF :: "world \<Rightarrow> browser \<Rightarrow> jsstring \<Rightarrow> pageInfo \<Rightarrow> (error + jsstring) \<times> browser" where
  "generateCleanPDF w b pdfPath info =
     (let newPage = cleanHTML w info;
          b1 = b\<lparr>openPages := openPages b @ [newPage]\<rparr>
      in case pdfFailure w (clock b1) pdfPath of
           Some e \<Rightarrow> (Inl e, b1)
         | None \<Rightarrow>
             (let b2 = b1\<lparr>files := files b1 @ [(pdfPath, CleanPdf newPage)]\<rparr>
              in (Inr pdfPath, b2\<lparr>openPages := butlast (openPages b2)\<rparr>)))"

definition generatePDF :: "world \<Rightarrow> config \<Rightarrow> browser \<Rightarrow> jsstring \<Rightarrow> pageInfo \<Rightarrow> int option \<Rightarrow> (error + jsstring) \<times> browser" where
  "generatePDF w cfg b u info index =
     (case artifactPath w cfg u index (js ''.pdf'') of
        Inl e \<Rightarrow> (Inl e, b)
      | Inr pdfPath \<Rightarrow>
          if pdfStrategy cfg = js ''clean'' then generateCleanPDF w b pdfPath info
          else if pdfStrategy cfg = js ''basic'' then generateBasicPDF w b pdfPath info
          else generateEnhancedPDF w b pdfPath info)"

text \<open>The text of the transcript (lines 832-842).\<close>

definition transcript :: "world \<Rightarrow> pageInfo \<Rightarrow> jsstring" where
  "transcript w info =
     js ''Title: '' @ title info @ [0x0A]
     @ js ''URL: '' @ url info @ [0x0A]
     @ js ''Date: '' @ localeDate w @ [0x0A]
     @ js ''Reading Time: '' @ showNat (readingTime (metadata info)) @ js '' minutes'' @ [0x0A, 0x0A]
     @ (if description (metadata info) \<noteq> []
        then js ''Description: '' @ description (metadata info) @ [0x0A, 0x0A] else [])
     @ [0x0A]
     @ (if author (metadata info) \<noteq> []
        then js ''Author: '' @ author (metadata info) @ [0x0A, 0x0A] else [])
     @ [0x0A]
     @ replicate 80 0x3D @ [0x0A, 0x0A]
     @ content info @ [0x0A]"

definition saveTextContent :: "world \<Rightarrow> config \<Rightarrow> browser \<Rightarrow> jsstring \<Rightarrow> pageInfo \<Rightarrow> int option \<Rightarrow> (error + jsstring) \<times> browser" where
  "saveTextContent w cfg b u info index =
     (case artifactPath w cfg u index (js ''.txt'') of
        Inl e \<Rightarrow> (Inl e, b)
      | Inr textPath \<Rightarrow>
          (case writeFailure w (clock b) textPath of
             Some e \<Rightarrow> (Inl e, b)
           | None \<Rightarrow> (Inr textPath, b\<lparr>files := files b @ [(textPath, TextFile (transcript w info))]\<rparr>)))"

section \<open>One page (crawler.js, lines 98-192)\<close>

text \<open>The object \<open>crawlPage\<close> returns, and the two shapes \<open>crawlMultiplePages\<close> collects.\<close>

record pageResult =
  resultUrl :: jsstring
  resultTitle :: jsstring
  pdfPath :: jsstring
  textPath :: jsstring
  resultContent :: jsstring
  resultMetadata :: pageMetadata

datatype crawlResult =
    Success pageResult
  | Failure jsstring jsstring

text \<open>
  Lines 147-153: the text of the page after the enhanced strategy has changed it.
  \<open>document.body.innerText\<close> throws when the body is gone.
\<close>

definition updatedContent :: "world \<Rightarrow> liveDocument \<Rightarrow> error + jsstring" where
  "updatedContent w l =
     (case liveQuerySelector markdownSelector l of
        Some markdownElement \<Rightarrow> Inr (trim (innerText w l markdownElement))
      | None \<Rightarrow>
          (case liveBody l of
             None \<Rightarrow> Inl (rejection w BodyInnerText)
           | Some body \<Rightarrow> Inr (trim (innerText w l body))))"

text \<open>Lines 155-162: the page information with the new text and its reading time.\<close>

definition withUpdatedContent :: "pageInfo \<Rightarrow> jsstring \<Rightarrow> pageInfo" where
  "withUpdatedContent info c =
     info\<lparr>content := c, metadata := (metadata info)\<lparr>readingTime := readingTimeOf c\<rparr>\<rparr>"

definition finalPageInfo :: "world \<Rightarrow> config \<Rightarrow> liveDocument \<Rightarrow> pageInfo \<Rightarrow> error + pageInfo" where
  "finalPageInfo w cfg l info =
     (if pdfStrategy cfg = js ''enhanced''
      then (case updatedContent w l of
              Inl e \<Rightarrow> Inl e
            | Inr c \<Rightarrow> Inr (withUpdatedContent info c))
      else Inr info)"

text \<open>
  The \<open>try\<close> block of \<open>crawlPage\<close> (lines 99-179): the first step that fails ends the
  attempt with its error. What the block prints does not steer it and is not part of
  the session here.
\<close>

definition attemptPage :: "world \<Rightarrow> config \<Rightarrow> browser \<Rightarrow> jsstring \<Rightarrow> int option \<Rightarrow> (error + pageResult) \<times> browser" where
  "attemptPage w cfg b u index =
     (let b0 = b\<lparr>clock := clock b + 1\<rparr>
      in case goto w (clock b) u of
           Inl e \<Rightarrow> (Inl e, b0)
         | Inr loaded \<Rightarrow>
             (case waitForContent w loaded of
                Inl e \<Rightarrow> (Inl e, b0\<lparr>page := attached loaded\<rparr>)
              | Inr expanded \<Rightarrow>
                  (let b1 = b0\<lparr>page := attached expanded\<rparr>;
                       info = extractPageInfo w expanded
                   in case generatePDF w cfg b1 u info index of
                        (Inl e, b2) \<Rightarrow> (Inl e, b2)
                      | (Inr pdf, b2) \<Rightarrow>
                          (case finalPageInfo w cfg (page b2) info of
                             Inl e \<Rightarrow> (Inl e, b2)
                           | Inr finalInfo \<Rightarrow>
                               (case saveTextContent w cfg b2 u finalInfo index of
                                  (Inl e, b3) \<Rightarrow> (Inl e, b3)
                                | (Inr txt, b3) \<Rightarrow>
                                    (Inr \<lparr>resultUrl = u,
                                          resultTitle = title info,
                                          pdfPath = pdf,
                                          textPath = txt,
                                          resultContent = content info,
                                          resultMetadata = metadata info\<rparr>, b3))))))"

text \<open>
  \<open>crawlPage(url, retryCount, index)\<close>: the \<open>catch\<close> block (lines 181-191) calls
  \<open>crawlPage\<close> again while \<open>retryCount < this.retries - 1\<close> and throws the error
  otherwise.
\<close>

function crawlPage :: "world \<Rightarrow> config \<Rightarrow> browser \<Rightarrow> jsstring \<Rightarrow> nat \<Rightarrow> int option \<Rightarrow> (error + pageResult) \<times> browser" where
  "crawlPage w cfg b u retryCount index =
     (case attemptPage w cfg b u index of
        (Inr r, b') \<Rightarrow> (Inr r, b')
      | (Inl e, b') \<Rightarrow>
          if int retryCount < retries cfg - 1 then crawlPage w cfg b' u (retryCount + 1) index
          else (Inl e, b'))"
  by pat_completeness auto
termination
  by (relation "measure (\<lambda>(w, cfg, b, u, retryCount, index). nat (retries cfg - 1 - int retryCount))") auto

declare crawlPage.simps [simp del]

section \<open>Many pages (crawler.js, lines 848-872)\<close>

text \<open>
  The loop of \<open>crawlMultiplePages\<close> from position \<open>i\<close> on: \<open>pageIndex = startIndex + i\<close>,
  one result is pushed for each URL, the page's result or \<open>{url, error: error.message}\<close>.
\<close>

fun crawlEach :: "world \<Rightarrow> config \<Rightarrow> browser \<Rightarrow> int \<Rightarrow> nat \<Rightarrow> jsstring list \<Rightarrow> crawlResult list \<times> browser" where
  "crawlEach w cfg b startIndex i [] = ([], b)"
| "crawlEach w cfg b startIndex i (u # rest) =
     (case crawlPage w cfg b u 0 (Some (startIndex + int i)) of
        (Inr r, b') \<Rightarrow>
          (case crawlEach w cfg b' startIndex (i + 1) rest of
             (results, b'') \<Rightarrow> (Success r # results, b''))
      | (Inl e, b') \<Rightarrow>
          (case crawlEach w cfg b' startIndex (i + 1) rest of
             (results, b'') \<Rightarrow> (Failure u (message e) # results, b'')))"

definition crawlMultiplePages :: "world \<Rightarrow> config \<Rightarrow> browser \<Rightarrow> jsstring list \<Rightarrow> int \<Rightarrow> crawlResult list \<times> browser" where
  "crawlMultiplePages w cfg b urls startIndex = crawlEach w cfg b startIndex 0 urls"

section \<open>Navigation (crawler.js, lines 874-989)\<close>

record navLink =
  href :: jsstring
  linkText :: jsstring
  fullUrl :: jsstring

definition drawerSelector :: selector where
  "drawerSelector =
     Both (ByClass (js ''MuiDrawer-root''))
       (Both (ByClass (js ''MuiDrawer-anchorLeft''))
          (Both (ByClass (js ''MuiDrawer-docked'')) (ByClass (js ''min-h-screen''))))"

text \<open>The condition of lines 902-908 on an anchor's \<open>href\<close> and trimmed text.\<close>

definition isContentLink :: "jsstring \<Rightarrow> jsstring \<Rightarrow> bool" where
  "isContentLink h t =
     (h \<noteq> [] \<and> prefix (js ''/learn'') h \<and> \<not> sublist (js ''/_next/'') h
      \<and> \<not> sublist (js ''/api/'') h \<and> t \<noteq> [] \<and> t \<noteq> js ''Back to Main''
      \<and> \<not> sublist (js ''Hello Interview'') t)"

definition collectLinks :: "world \<Rightarrow> document \<Rightarrow> navLink list" where
  "collectLinks w d =
     (case querySelector drawerSelector d of
        None \<Rightarrow> []
      | Some drawer \<Rightarrow>
          concat (map (\<lambda>anchor.
              case getAttribute anchor (js ''href'') of
                None \<Rightarrow> []
              | Some h \<Rightarrow>
                  if isContentLink h (trim (textContent anchor))
                  then [\<lparr>href = h, linkText = trim (textContent anchor),
                         fullUrl = resolveUrl w (docHref d) h\<rparr>]
                  else [])
            (filter (matches (Both (ByTag (js ''a'')) (HasAttr (js ''href'')))) (descendantsOf drawer))))"

text \<open>\<open>self.findIndex(l => ...)\<close>\<close>

fun findIndex :: "('a \<Rightarrow> bool) \<Rightarrow> 'a list \<Rightarrow> nat option" where
  "findIndex P [] = None"
| "findIndex P (x # xs) = (if P x then Some 0 else map_option Suc (findIndex P xs))"

text \<open>Lines 922-924: a link stays when it is the first with its \<open>href\<close>.\<close>

definition uniqueLinks :: "navLink list \<Rightarrow> navLink list" where
  "uniqueLinks links =
     map snd (filter (\<lambda>(index, link). findIndex (\<lambda>l. href l = href link) links = Some index)
                (enumerate 0 links))"

definition extractNavigationLinks :: "world \<Rightarrow> browser \<Rightarrow> jsstring \<Rightarrow> (error + navLink list) \<times> browser" where
  "extractNavigationLinks w b baseUrl =
     (let b0 = b\<lparr>clock := clock b + 1\<rparr>
      in case goto w (clock b) baseUrl of
           Inl e \<Rightarrow> (Inl e, b0)
         | Inr loaded \<Rightarrow>
             (case waitForSelector w loaded drawerSelector 10000 of
                Inl e \<Rightarrow> (Inl e, b0\<lparr>page := attached loaded\<rparr>)
              | Inr drawer \<Rightarrow>
                  (Inr (uniqueLinks (collectLinks w loaded)), b0\<lparr>page := attached loaded\<rparr>)))"

text \<open>
  The options of \<open>crawlFromNavigation\<close>: \<open>None\<close> is a field that is absent
  (\<open>maxPages = null\<close>, \<open>filterPattern = null\<close>, \<open>startIndex = 1\<close> are the defaults).
\<close>

record crawlRequest =
  maxPages :: "int option"
  filterPattern :: "jsstring option"
  startIndex :: "int option"

text \<open>
  Lines 952-959. \<open>if (filterPattern)\<close> skips the filter for an empty pattern too. The
  pattern is tested on \<open>link.text\<close> and on \<open>link.href\<close>.
\<close>

definition filterLinks :: "world \<Rightarrow> jsstring option \<Rightarrow> navLink list \<Rightarrow> error + navLink list" where
  "filterLinks w pattern links =
     (case pattern of
        None \<Rightarrow> Inr links
      | Some p \<Rightarrow>
          if p = [] then Inr links
          else (case regExpI w p of
                  Inl e \<Rightarrow> Inl e
                | Inr test \<Rightarrow> Inr (filter (\<lambda>link. test (linkText link) \<or> test (href link)) links)))"

text \<open>\<open>xs.slice(0, m)\<close>: a negative \<open>m\<close> counts from the end.\<close>

definition sliceTo :: "'a list \<Rightarrow> int \<Rightarrow> 'a list" where
  "sliceTo xs m = (if 0 \<le> m then take (nat m) xs else take (length xs - nat (- m)) xs)"

text \<open>
  Lines 961-975. \<open>startIndex && startIndex > 1\<close> and \<open>maxPages && ...\<close> are false for
  \<open>0\<close>. The result is \<open>None\<close> for the early \<open>return []\<close> of line 965.
\<close>

definition selectLinks :: "crawlRequest \<Rightarrow> navLink list \<Rightarrow> navLink list option" where
  "selectLinks req links =
     (let s = (case startIndex req of None \<Rightarrow> 1 | Some i \<Rightarrow> i)
      in if s \<noteq> 0 \<and> 1 < s \<and> int (length links) < s then None
         else
           (let fromStart = (if s \<noteq> 0 \<and> 1 < s then drop (nat (s - 1)) links else links)
            in Some (case maxPages req of
                       None \<Rightarrow> fromStart
                     | Some m \<Rightarrow>
                         if m \<noteq> 0 \<and> m < int (length fromStart) then sliceTo fromStart m
                         else fromStart)))"

text \<open>\<open>const fileStartIndex = startIndex || 1\<close>\<close>

definition fileStartIndex :: "crawlRequest \<Rightarrow> int" where
  "fileStartIndex req =
     (case startIndex req of None \<Rightarrow> 1 | Some i \<Rightarrow> if i = 0 then 1 else i)"

text \<open>
  \<open>crawlFromNavigation\<close> (lines 939-989). An error of the discovery or of the pattern is
  thrown again by the \<open>catch\<close> block; the errors of the pages are inside the results.
\<close>

definition crawlFromNavigation :: "world \<Rightarrow> config \<Rightarrow> browser \<Rightarrow> jsstring \<Rightarrow> crawlRequest \<Rightarrow> (error + crawlResult list) \<times> browser" where
  "crawlFromNavigation w cfg b baseUrl req =
     (case extractNavigationLinks w b baseUrl of
        (Inl e, b1) \<Rightarrow> (Inl e, b1)
      | (Inr navigationLinks, b1) \<Rightarrow>
          if navigationLinks = [] then (Inr [], b1)
          else
            (case filterLinks w (filterPattern req) navigationLinks of
               Inl e \<Rightarrow> (Inl e, b1)
             | Inr filtered \<Rightarrow>
                 (case selectLinks req filtered of
                    None \<Rightarrow> (Inr [], b1)
                  | Some linksToProcess \<Rightarrow>
                      (case crawlMultiplePages w cfg b1 (map fullUrl linksToProcess) (fileStartIndex req) of
                         (results, b2) \<Rightarrow> (Inr results, b2)))))"

section \<open>What the session prints about cookies (crawler.js, lines 64-73 and 114-125)\<close>

text \<open>
  Line 72, for the cookie at position \<open>index\<close> of \<open>this.cookies\<close>:
  \<open>`   ${index + 1}. ${cookie.name} for ${cookie.domain} (${cookie.value?.substring(0, 20)}...)`\<close>
\<close>

definition cookieLogLine :: "nat \<Rightarrow> cookie \<Rightarrow> jsstring" where
  "cookieLogLine index c =
     js ''   '' @ showNat (index + 1) @ js ''. '' @ cookieName c @ js '' for '' @ cookieDomain c
     @ js '' ('' @ take 20 (cookieValue c) @ js ''...)''"

text \<open>
  The lines \<open>setupAuthentication\<close> prints before it adds the cookies (lines 65-73); the
  first two start with an emoji, written here as its two code units.
\<close>

definition setupAuthenticationLog :: "config \<Rightarrow> jsstring list" where
  "setupAuthenticationLog cfg =
     (if cookies cfg = [] then []
      else [[0xD83D, 0xDD10] @ js '' Setting up authentication...'',
            [0xD83D, 0xDCCB] @ js '' Cookies to add:'']
           @ map (\<lambda>(index, c). cookieLogLine index c) (enumerate 0 (cookies cfg)))"

text \<open>
  Line 119, for each cookie the context holds for the URL:
  \<open>`   - ${cookie.name}: ${cookie.value.substring(0, 20)}... (domain: ${cookie.domain})`\<close>
\<close>

definition pageCookieLogLine :: "cookie \<Rightarrow> jsstring" where
  "pageCookieLogLine c =
     js ''   - '' @ cookieName c @ js '': '' @ take 20 (cookieValue c) @ js ''... (domain: ''
     @ cookieDomain c @ js '')''"

section \<open>Auxiliary notions for the statements\<close>

text \<open>
  A text whose white space is collapsed: every white-space character is a single space
  (U+0020) and is not followed by another white-space character.
\<close>

fun normalSpacing :: "jsstring \<Rightarrow> bool" where
  "normalSpacing [] = True"
| "normalSpacing [c] = (isWhiteSpace c \<longrightarrow> c = 0x20)"
| "normalSpacing (c # d # cs) =
     ((isWhiteSpace c \<longrightarrow> c = 0x20 \<and> \<not> isWhiteSpace d) \<and> normalSpacing (d # cs))"

text \<open>\<open>result.url\<close>, which both shapes of a result have.\<close>

fun resultUrlOf :: "crawlResult \<Rightarrow> jsstring" where
  "resultUrlOf (Success r) = resultUrl r"
| "resultUrlOf (Failure u m) = u"

text \<open>A selector whose first match exists and has a trimmed text of more than 100 code units.\<close>

definition selectorLong :: "world \<Rightarrow> document \<Rightarrow> selector \<Rightarrow> bool" where
  "selectorLong w d sel =
     (case querySelector sel d of None \<Rightarrow> False | Some el \<Rightarrow> hasLongText w d el)"

text \<open>
  The number of links the resume claim states for a start index \<open>s\<close>, a page limit \<open>m\<close> and
  \<open>n\<close> links: the positions \<open>s\<close> through \<open>min(s+m-1, n)\<close>.
\<close>

definition claimedCount :: "int \<Rightarrow> int \<Rightarrow> int \<Rightarrow> int" where
  "claimedCount s m n = min (s + m - 1) n - s + 1"

text \<open>
  The filter as the claim words it: the pattern is tested on the display text and on the
  resolved absolute URL.
\<close>

definition claimedFilter :: "(jsstring \<Rightarrow> bool) \<Rightarrow> navLink list \<Rightarrow> navLink list" where
  "claimedFilter test links = filter (\<lambda>link. test (linkText link) \<or> test (fullUrl link)) links"

section \<open>An example site\<close>

text \<open>
  A concrete world for the examples: every URL that is not down serves the same document
  (with its own address), every element is visible and its rendered text is its
  \<open>textContent\<close>, nothing fails to print or to write, the date is 2024-01-01, URLs are
  resolved against \<open>https://www.hellointerview.com\<close>, paths are joined as Node joins
  them on a POSIX system, and the messages of the faults are the first lines of the
  driver's messages.
\<close>

text \<open>
  The patterns of the examples are made of ASCII letters only. \<open>new RegExp(p, 'i')\<close>
  matches such a pattern as a literal, ignoring the case of ASCII letters: without the
  flag \<open>u\<close> a character is compared by its upper-case form, and no character outside
  ASCII is given an ASCII upper-case form. For other patterns (metacharacters, letters
  outside ASCII) this matcher is not the one of the runtime library.
\<close>

definition toLowerAscii :: "jschar \<Rightarrow> jschar" where
  "toLowerAscii c = (if 0x41 \<le> c \<and> c \<le> 0x5A then c + 0x20 else c)"

definition literalRegExpI :: "jsstring \<Rightarrow> error + (jsstring \<Rightarrow> bool)" where
  "literalRegExpI p = Inr (\<lambda>s. sublist (map toLowerAscii p) (map toLowerAscii s))"

text \<open>
  \<open>path.join(dir, name)\<close> of Node on a POSIX system (\<open>lib/path.js\<close>): the parts that are
  not empty are joined by a slash, and the result is normalized. Of the segments between
  the slashes, the empty ones and \<open>.\<close> are dropped; \<open>..\<close> takes back the segment before
  it, unless there is none or it is \<open>..\<close> itself, and then \<open>..\<close> stays when the path is
  relative. A slash at the start and a slash at the end are kept.
\<close>

fun normalizeSegments :: "bool \<Rightarrow> jsstring list \<Rightarrow> jsstring list \<Rightarrow> jsstring list" where
  "normalizeSegments allowAboveRoot res [] = res"
| "normalizeSegments allowAboveRoot res (seg # segs) =
     (if seg = [] \<or> seg = js ''.'' then normalizeSegments allowAboveRoot res segs
      else if seg = js ''..'' then
        (if res \<noteq> [] \<and> last res \<noteq> js ''..''
         then normalizeSegments allowAboveRoot (butlast res) segs
         else if allowAboveRoot then normalizeSegments allowAboveRoot (res @ [js ''..'']) segs
         else normalizeSegments allowAboveRoot res segs)
      else normalizeSegments allowAboveRoot (res @ [seg]) segs)"

definition posixNormalize :: "jsstring \<Rightarrow> jsstring" where
  "posixNormalize p =
     (if p = [] then js ''.''
      else
        (let isAbsolute = (hd p = 0x2F);
             trailingSeparator = (last p = 0x2F);
             path = joinWith 0x2F (normalizeSegments (\<not> isAbsolute) [] (splitOn 0x2F p))
         in if path = []
            then (if isAbsolute then js ''/'' else if trailingSeparator then js ''./'' else js ''.'')
            else (if isAbsolute then [0x2F] else []) @ path
                 @ (if trailingSeparator then [0x2F] else [])))"

definition posixJoin :: "jsstring \<Rightarrow> jsstring \<Rightarrow> jsstring" where
  "posixJoin dir name =
     (if dir = [] \<and> name = [] then js ''.''
      else if dir = [] then posixNormalize name
      else if name = [] then posixNormalize dir
      else posixNormalize (dir @ 0x2F # name))"

text \<open>
  The first line of \<open>error.message\<close> as a current Playwright with Chromium words it; the
  call log and the stack that follow it are left out.
\<close>

fun siteFaultMessage :: "fault \<Rightarrow> jsstring" where
  "siteFaultMessage (SelectorTimeout sel ms) =
     js ''page.waitForSelector: Timeout '' @ showNat ms @ js ''ms exceeded.''"
| "siteFaultMessage (FunctionTimeout ms) =
     js ''page.waitForFunction: Timeout '' @ showNat ms @ js ''ms exceeded.''"
| "siteFaultMessage BodyInnerHTML =
     js ''page.evaluate: TypeError: Cannot set properties of null (setting '' @ [0x27]
     @ js ''innerHTML'' @ [0x27] @ js '')''"
| "siteFaultMessage BodyInnerText =
     js ''page.evaluate: TypeError: Cannot read properties of null (reading '' @ [0x27]
     @ js ''innerText'' @ [0x27] @ js '')''"

text \<open>
  The world that serves the document \<open>served\<close> at every URL not in \<open>down\<close>. The path
  of an \<open>https\<close> URL is what follows the host: the text from the first slash after the
  eight code units of \<open>https://\<close>.
\<close>

definition siteWorld :: "document \<Rightarrow> jsstring list \<Rightarrow> world" where
  "siteWorld served down =
     \<lparr>innerText = (\<lambda>l n. textContent n),
      visible = (\<lambda>d n. True),
      faultMessage = siteFaultMessage,
      goto = (\<lambda>t u. if u \<in> set down then Inl (OtherError (js ''net::ERR_CONNECTION_REFUSED''))
                     else Inr (served\<lparr>docHref := u\<rparr>)),
      afterExpand = (\<lambda>d. d),
      pdfFailure = (\<lambda>t p. None),
      writeFailure = (\<lambda>t p. None),
      urlPathname = (\<lambda>u. Inr (dropWhile (\<lambda>c. c \<noteq> 0x2F) (drop 8 u))),
      resolveUrl = (\<lambda>base h. js ''https://www.hellointerview.com'' @ h),
      pathJoin = posixJoin,
      isoDate = js ''2024-01-01'',
      localeDate = js ''1/1/2024'',
      regExpI = literalRegExpI\<rparr>"

text \<open>
  A lesson page: a \<open>#markdown\<close> element with a text of 119 code units, and the navigation
  drawer with one anchor for each entry (an \<open>href\<close> and a display text).
\<close>

definition lessonText :: jsstring where
  "lessonText = js ''Consistent hashing spreads keys over the nodes of a cluster so that adding a node moves only a small share of the keys.''"

definition markdownDiv :: node where
  "markdownDiv = Element (js ''div'') (js ''markdown'') [] [] [TextNode lessonText]"

definition drawer :: "(jsstring \<times> jsstring) list \<Rightarrow> node" where
  "drawer entries =
     Element (js ''div'') []
       [js ''MuiDrawer-root'', js ''MuiDrawer-anchorLeft'', js ''MuiDrawer-docked'', js ''min-h-screen''] []
       (map (\<lambda>(h, t). Element (js ''a'') [] [] [(js ''href'', h)] [TextNode t]) entries)"

definition lessonPage :: "(jsstring \<times> jsstring) list \<Rightarrow> document" where
  "lessonPage entries =
     \<lparr>docHref = [], docTitle = js ''Lesson'', docHead = [],
      docBody = Element (js ''body'') [] [] [] [markdownDiv, drawer entries]\<rparr>"

definition tenEntries :: "(jsstring \<times> jsstring) list" where
  "tenEntries =
     [(js ''/learn/p1'', js ''One''), (js ''/learn/p2'', js ''Two''), (js ''/learn/p3'', js ''Three''),
      (js ''/learn/p4'', js ''Four''), (js ''/learn/p5'', js ''Five''), (js ''/learn/p6'', js ''Six''),
      (js ''/learn/p7'', js ''Seven''), (js ''/learn/p8'', js ''Eight''), (js ''/learn/p9'', js ''Nine''),
      (js ''/learn/p10'', js ''Ten'')]"

text \<open>A session before the first navigation, and the default configuration.\<close>

definition blankPage :: document where
  "blankPage = \<lparr>docHref = js ''about:blank'', docTitle = [], docHead = [],
                 docBody = Element (js ''body'') [] [] [] []\<rparr>"

definition freshSession :: browser where
  "freshSession = \<lparr>page = attached blankPage, clock = 0, files = [], openPages = []\<rparr>"

definition defaultConfig :: config where
  "defaultConfig = \<lparr>outputDir = js ''./output'', retries = 3, pdfStrategy = js ''enhanced'', cookies = []\<rparr>"

text \<open>The absolute URL of a path of the site, and a batch of five URLs.\<close>

definition siteUrl :: "string \<Rightarrow> jsstring" where
  "siteUrl path = js ''https://www.hellointerview.com'' @ js path"

definition fiveUrls :: "jsstring list" where
  "fiveUrls = [siteUrl ''/learn/p1'', siteUrl ''/learn/p2'', siteUrl ''/learn/p3'',
               siteUrl ''/learn/p4'', siteUrl ''/learn/p5'']"


definition shortMainPage :: document where
  "shortMainPage = \<lparr>docHref = [], docTitle = js ''Soon'', docHead = [],
                docBody = Element (js ''body'') [] [] []
                  [Element (js ''main'') [] [] [] [TextNode (js ''Coming soon'')]]\<rparr>"

text \<open>
  Pages for the choice of the content element: \<open>main\<close> before a long \<open>#markdown\<close>; a
  short \<open>#markdown\<close>, then a long \<open>.content\<close>, then a long \<open>article\<close>; a \<open>nav\<close> and a
  short paragraph only.
\<close>

definition articleElement :: node where
  "articleElement = Element (js ''article'') [] [] [] [TextNode lessonText]"

definition bothPage :: document where
  "bothPage = \<lparr>docHref = [], docTitle = js ''Both'', docHead = [],
               docBody = Element (js ''body'') [] [] []
                 [Element (js ''main'') [] [] [] [TextNode lessonText], markdownDiv]\<rparr>"

definition fallbackPage :: document where
  "fallbackPage = \<lparr>docHref = [], docTitle = js ''Fallback'', docHead = [],
               docBody = Element (js ''body'') [] [] []
                 [Element (js ''div'') (js ''markdown'') [] [] [TextNode (js ''Short'')],
                  Element (js ''div'') [] [js ''content''] [] [TextNode lessonText],
                  articleElement]\<rparr>"

definition chromePage :: document where
  "chromePage = \<lparr>docHref = [], docTitle = js ''Chrome'', docHead = [],
               docBody = Element (js ''body'') [] [] []
                 [Element (js ''nav'') [] [] [] [TextNode (js ''Menu'')],
                  Element (js ''p'') [] [] [] [TextNode (js ''Coming soon'')]]\<rparr>"

text \<open>A page whose body carries the class \<open>forum\<close>, its text inside \<open>main\<close>.\<close>

definition forumPage :: document where
  "forumPage = \<lparr>docHref = [], docTitle = js ''Forum'', docHead = [],
               docBody = Element (js ''body'') [] [js ''forum''] []
                 [Element (js ''main'') [] [] [] [TextNode lessonText]]\<rparr>"

text \<open>The links the drawer of a lesson page yields, and the two links of the filter example.\<close>

definition linksOf :: "(jsstring \<times> jsstring) list \<Rightarrow> navLink list" where
  "linksOf entries =
     map (\<lambda>(h, t). \<lparr>href = h, linkText = t, fullUrl = js ''https://www.hellointerview.com'' @ h\<rparr>)
       entries"

definition twoEntries :: "(jsstring \<times> jsstring) list" where
  "twoEntries = [(js ''/learn/a'', js ''Scaling''), (js ''/learn/b'', js ''Intro'')]"

text \<open>The clean strategy, an extracted page information, and a cookie with a short value.\<close>

definition cleanConfig :: config where
  "cleanConfig = defaultConfig\<lparr>pdfStrategy := js ''clean''\<rparr>"

definition sampleInfo :: pageInfo where
  "sampleInfo =
     \<lparr>title = js ''Lesson'', content = lessonText,
      metadata = \<lparr>description = [], metaKeywords = [], author = js ''Staff'', publishedDate = [],
                  readingTime = 1\<rparr>,
      url = siteUrl ''/learn/p1'',
      debug = \<lparr>usedSelector = Some markdownSelector, contentLength = 119, markdownFound = True,
               markdownLength = 119\<rparr>\<rparr>"

definition sampleCookie :: cookie where
  "sampleCookie = \<lparr>cookieName = js ''token'', cookieValue = js ''s3cr3t'',
                    cookieDomain = js ''.hellointerview.com''\<rparr>"

section \<open>Facts about the text functions\<close>

lemma splitWhitespace_nonempty: "splitWhitespace s \<noteq> []"
  by (subst splitWhitespace.simps) (simp split: list.split)

lemma splitWhitespace_empty: "splitWhitespace [] = [[]]"
  by (subst splitWhitespace.simps) simp

lemma readingTimeOf_pos: "1 \<le> readingTimeOf s"
proof -
  have "1 \<le> length (splitWhitespace s)"
    using splitWhitespace_nonempty [of s] by (cases "splitWhitespace s") simp_all
  then show ?thesis
    unfolding readingTimeOf_def by simp
qed

lemma readingTimeOf_Suc: "Suc 0 \<le> readingTimeOf s"
  using readingTimeOf_pos [of s] by simp

lemma cutAtFirst_prefix: "prefix (cutAtFirst p s) s"
  by (induction s) simp_all

lemma cutAtFirst_no_occurrence: "p \<noteq> [] \<Longrightarrow> \<not> sublist p (cutAtFirst p s)"
proof (induction s)
  case Nil
  then show ?case by simp
next
  case (Cons c cs)
  show ?case
  proof (cases "prefix p (c # cs)")
    case True
    with Cons.prems show ?thesis by simp
  next
    case False
    have "\<not> prefix p (c # cutAtFirst p cs)"
    proof
      assume "prefix p (c # cutAtFirst p cs)"
      moreover have "prefix (c # cutAtFirst p cs) (c # cs)"
        by (simp add: cutAtFirst_prefix)
      ultimately have "prefix p (c # cs)"
        by (rule prefix_order.trans)
      with False show False by contradiction
    qed
    with False Cons show ?thesis
      by (simp add: sublist_Cons_right)
  qed
qed

lemma cutAtFirst_absent: "\<not> sublist p s \<Longrightarrow> cutAtFirst p s = s"
  by (induction s) (auto simp: sublist_Cons_right)

lemma sublist_trans': "sublist a b \<Longrightarrow> sublist b c \<Longrightarrow> sublist a c"
  by (rule sublist_order.order.trans)

lemma foldl_cut_prefix: "prefix (foldl (\<lambda>acc p. cutAtFirst p acc) s ps) s"
proof (induction ps arbitrary: s)
  case Nil
  show ?case by simp
next
  case (Cons p ps)
  have "prefix (foldl (\<lambda>acc p. cutAtFirst p acc) (cutAtFirst p s) ps) (cutAtFirst p s)"
    by (rule Cons.IH)
  also have "prefix (cutAtFirst p s) s"
    by (rule cutAtFirst_prefix)
  finally show ?case by simp
qed

lemma foldl_cut_no_occurrence:
  "[] \<notin> set ps \<Longrightarrow> p \<in> set ps \<Longrightarrow> \<not> sublist p (foldl (\<lambda>acc p. cutAtFirst p acc) s ps)"
proof (induction ps arbitrary: s)
  case Nil
  then show ?case by simp
next
  case (Cons q qs)
  show ?case
  proof (cases "p = q")
    case True
    have "prefix (foldl (\<lambda>acc p. cutAtFirst p acc) (cutAtFirst q s) qs) (cutAtFirst q s)"
      by (rule foldl_cut_prefix)
    then have "sublist (foldl (\<lambda>acc p. cutAtFirst p acc) (cutAtFirst q s) qs) (cutAtFirst q s)"
      by (rule prefix_imp_sublist)
    moreover have "\<not> sublist q (cutAtFirst q s)"
      using Cons.prems by (intro cutAtFirst_no_occurrence) auto
    ultimately show ?thesis
      using True by (auto dest: sublist_trans')
  next
    case False
    with Cons show ?thesis by simp
  qed
qed

lemma foldl_cut_absent:
  "(\<And>p. p \<in> set ps \<Longrightarrow> \<not> sublist p s) \<Longrightarrow> foldl (\<lambda>acc p. cutAtFirst p acc) s ps = s"
  by (induction ps arbitrary: s) (simp_all add: cutAtFirst_absent)

lemma isWhiteSpace_space: "isWhiteSpace 0x20"
  by (simp add: isWhiteSpace_def)

lemma collapseWhitespace_length: "length (collapseWhitespace s) \<le> length s"
proof (induction s rule: collapseWhitespace.induct)
  case 1
  show ?case by simp
next
  case (2 c cs)
  have "length (dropWhile isWhiteSpace cs) \<le> length cs"
    by (rule length_dropWhile_le)
  with 2 show ?case by auto
qed

lemma collapseWhitespace_fixed_iff: "collapseWhitespace s = s \<longleftrightarrow> normalSpacing s"
proof (induction s rule: normalSpacing.induct)
  case 1
  show ?case by simp
next
  case (2 c)
  show ?case by auto
next
  case (3 c d cs)
  show ?case
  proof (cases "isWhiteSpace c")
    case False
    with 3 show ?thesis by simp
  next
    case c: True
    show ?thesis
    proof (cases "isWhiteSpace d")
      case False
      with c 3 show ?thesis by auto
    next
      case True
      have "length (collapseWhitespace (dropWhile isWhiteSpace cs)) \<le> length (dropWhile isWhiteSpace cs)"
        by (rule collapseWhitespace_length)
      also have "\<dots> \<le> length cs"
        by (rule length_dropWhile_le)
      finally have "collapseWhitespace (dropWhile isWhiteSpace cs) \<noteq> d # cs"
        by auto
      with c True show ?thesis by simp
    qed
  qed
qed

lemma normalSpacing_tl: "normalSpacing (c # cs) \<Longrightarrow> normalSpacing cs"
  by (cases cs) simp_all

lemma normalSpacing_append_left: "normalSpacing (a @ b) \<Longrightarrow> normalSpacing a"
proof (induction a rule: normalSpacing.induct)
  case 1
  show ?case by simp
next
  case (2 c)
  then show ?case by (cases b) simp_all
next
  case (3 c d cs)
  then show ?case by simp
qed

lemma normalSpacing_append_right: "normalSpacing (a @ b) \<Longrightarrow> normalSpacing b"
  by (induction a) (auto dest: normalSpacing_tl)

lemma normalSpacing_sublist: "sublist t s \<Longrightarrow> normalSpacing s \<Longrightarrow> normalSpacing t"
  by (auto simp: sublist_def dest: normalSpacing_append_left normalSpacing_append_right)

lemma normalSpacing_collapse: "normalSpacing (collapseWhitespace s)"
proof (induction s rule: collapseWhitespace.induct)
  case 1
  show ?case by simp
next
  case (2 c cs)
  show ?case
  proof (cases "isWhiteSpace c")
    case True
    show ?thesis
    proof (cases "dropWhile isWhiteSpace cs")
      case Nil
      show ?thesis by (simp add: True Nil)
    next
      case (Cons d ds)
      then have "\<not> isWhiteSpace d"
        using hd_dropWhile [of isWhiteSpace cs] by simp
      with True Cons 2 show ?thesis by simp
    qed
  next
    case False
    with 2 show ?thesis
      by (cases "collapseWhitespace cs") simp_all
  qed
qed

lemma trim_sublist: "sublist (trim s) s"
proof -
  have "suffix (dropWhile isWhiteSpace (rev (dropWhile isWhiteSpace s))) (rev (dropWhile isWhiteSpace s))"
    by (rule suffix_dropWhile)
  then have "prefix (trim s) (dropWhile isWhiteSpace s)"
    by (simp add: trim_def suffix_to_prefix)
  then have "sublist (trim s) (dropWhile isWhiteSpace s)"
    by (rule prefix_imp_sublist)
  moreover have "sublist (dropWhile isWhiteSpace s) s"
    by (intro suffix_imp_sublist suffix_dropWhile)
  ultimately show ?thesis
    by (rule sublist_order.order.trans)
qed

lemma trim_idem: "trim (trim s) = trim s"
proof -
  define u where "u = dropWhile isWhiteSpace s"
  define t where "t = rev (dropWhile isWhiteSpace (rev u))"
  have t: "trim s = t"
    by (simp add: trim_def t_def u_def)
  have pre: "prefix t u"
    using suffix_dropWhile [of isWhiteSpace "rev u"] by (simp add: t_def suffix_to_prefix)
  have "dropWhile isWhiteSpace t = t"
  proof (cases t)
    case Nil
    then show ?thesis by simp
  next
    case (Cons a as)
    with pre obtain bs where u: "u = a # bs"
      by (cases u) auto
    have "dropWhile isWhiteSpace s \<noteq> []"
      using u by (simp add: u_def)
    then have "\<not> isWhiteSpace (hd (dropWhile isWhiteSpace s))"
      by (rule hd_dropWhile)
    then have "\<not> isWhiteSpace a"
      using u by (simp add: u_def)
    with Cons show ?thesis by simp
  qed
  then have "trim t = rev (dropWhile isWhiteSpace (rev t))"
    by (simp add: trim_def)
  also have "\<dots> = t"
    by (simp add: t_def)
  finally show ?thesis
    by (simp add: t)
qed

lemma commentPatterns_nonempty: "[] \<notin> set commentPatterns"
  by (simp add: commentPatterns_def js_def)

lemma stripBoilerplate_fixed:
  assumes "normalSpacing x"
  shows "stripBoilerplate (stripBoilerplate x) = stripBoilerplate x"
proof -
  define r where "r = removeCommentSections x"
  define y where "y = trim r"
  have "prefix r x"
    unfolding r_def removeCommentSections_def by (rule foldl_cut_prefix)
  then have rx: "sublist r x"
    by (rule prefix_imp_sublist)
  then have nr: "normalSpacing r"
    using assms by (rule normalSpacing_sublist)
  then have cr: "collapseWhitespace r = r"
    by (simp add: collapseWhitespace_fixed_iff)
  have y: "stripBoilerplate x = y"
    by (simp add: stripBoilerplate_def r_def [symmetric] cr y_def)
  have yr: "sublist y r"
    unfolding y_def by (rule trim_sublist)
  have absent: "\<not> sublist p y" if "p \<in> set commentPatterns" for p
  proof
    assume "sublist p y"
    then have "sublist p r"
      using yr by (rule sublist_order.order.trans)
    moreover have "\<not> sublist p r"
      unfolding r_def removeCommentSections_def
      using commentPatterns_nonempty that by (rule foldl_cut_no_occurrence)
    ultimately show False by contradiction
  qed
  have "removeCommentSections y = y"
    unfolding removeCommentSections_def by (rule foldl_cut_absent) (rule absent)
  moreover have "collapseWhitespace y = y"
    using yr nr by (simp add: collapseWhitespace_fixed_iff normalSpacing_sublist)
  moreover have "trim y = y"
    unfolding y_def by (rule trim_idem)
  ultimately have "stripBoilerplate y = y"
    by (simp add: stripBoilerplate_def)
  then show ?thesis
    by (simp add: y)
qed

lemma cleanText_collapsed: "collapseWhitespace (cleanText t) = cleanText t"
  unfolding collapseWhitespace_fixed_iff cleanText_def
  by (rule normalSpacing_sublist [OF trim_sublist normalSpacing_collapse])

section \<open>Facts about a page and a batch\<close>

lemma strategy_distinct:
  "js ''enhanced'' \<noteq> js ''clean''" "js ''enhanced'' \<noteq> js ''basic''" "js ''clean'' \<noteq> js ''basic''"
  "js ''clean'' \<noteq> js ''enhanced''"
  by (simp_all add: js_def)

lemma generateBasicPDF_path: "generateBasicPDF w b p info = (Inr q, b') \<Longrightarrow> q = p"
  by (auto simp: generateBasicPDF_def split: option.splits)

lemma generateEnhancedPDF_path: "generateEnhancedPDF w b p info = (Inr q, b') \<Longrightarrow> q = p"
  by (auto simp: generateEnhancedPDF_def Let_def split: option.splits prod.splits)

lemma generateCleanPDF_path: "generateCleanPDF w b p info = (Inr q, b') \<Longrightarrow> q = p"
  by (auto simp: generateCleanPDF_def Let_def split: option.splits)

lemma generatePDF_path:
  "generatePDF w cfg b u info index = (Inr q, b') \<Longrightarrow> artifactPath w cfg u index (js ''.pdf'') = Inr q"
  by (auto simp: generatePDF_def split: sum.splits if_splits
      dest: generateBasicPDF_path generateEnhancedPDF_path generateCleanPDF_path)

lemma saveTextContent_path:
  "saveTextContent w cfg b u info index = (Inr q, b') \<Longrightarrow> artifactPath w cfg u index (js ''.txt'') = Inr q"
  by (auto simp: saveTextContent_def split: sum.splits option.splits)

lemma attemptPage_result:
  assumes "attemptPage w cfg b u index = (Inr r, b')"
  shows "resultUrl r = u
    \<and> artifactPath w cfg u index (js ''.pdf'') = Inr (pdfPath r)
    \<and> artifactPath w cfg u index (js ''.txt'') = Inr (textPath r)"
  using assms
  by (auto simp: attemptPage_def Let_def split: sum.splits prod.splits
      dest: generatePDF_path saveTextContent_path)

lemma attemptPage_clean_page:
  assumes "pdfStrategy cfg = js ''clean''"
    and "goto w (clock b) u = Inr loaded"
    and "waitForContent w loaded = Inr expanded"
  shows "page (snd (attemptPage w cfg b u index)) = attached expanded"
  using assms
  by (auto simp: attemptPage_def Let_def generatePDF_def generateCleanPDF_def saveTextContent_def
      finalPageInfo_def strategy_distinct split: sum.splits option.splits prod.splits)



lemma updatedContent_body: "liveBody l = Some body \<Longrightarrow> \<exists>c. updatedContent w l = Inr c"
  by (simp add: updatedContent_def split: option.splits)

lemma removeFromDocument_body:
  "liveBody l = Some body \<Longrightarrow> \<not> matchesAny sels body \<Longrightarrow>
   liveBody (removeFromDocument sels l) = Some (removeMatching sels body)"
  by (simp add: removeFromDocument_def)

lemma makePrintFriendly_plain:
  assumes "\<not> (markdownFound (debug info) \<and> 1000 < markdownLength (debug info))"
  shows "makePrintFriendly w info l =
     (None, (removeFromDocument enhancedRemovals l)
              \<lparr>liveHead := liveHead (removeFromDocument enhancedRemovals l) @ [printStyle]\<rparr>)"
  using assms by (auto simp: makePrintFriendly_def Let_def)

lemma crawlPage_result:
  "crawlPage w cfg b u retryCount index = (Inr r, b') \<Longrightarrow>
   resultUrl r = u
    \<and> artifactPath w cfg u index (js ''.pdf'') = Inr (pdfPath r)
    \<and> artifactPath w cfg u index (js ''.txt'') = Inr (textPath r)"
proof (induction w cfg b u retryCount index rule: crawlPage.induct)
  case (1 w cfg b u retryCount index)
  obtain x b1 where a: "attemptPage w cfg b u index = (x, b1)"
    by (cases "attemptPage w cfg b u index")
  show ?case
  proof (cases x)
    case (Inr r')
    with a "1.prems" have "r' = r"
      by (simp add: crawlPage.simps)
    with a Inr show ?thesis
      using attemptPage_result by blast
  next
    case (Inl e)
    show ?thesis
    proof (cases "int retryCount < retries cfg - 1")
      case True
      with a Inl "1.prems" have "crawlPage w cfg b1 u (retryCount + 1) index = (Inr r, b')"
        by (simp add: crawlPage.simps)
      with a Inl True show ?thesis
        by (intro "1.IH") auto
    next
      case False
      with a Inl "1.prems" show ?thesis
        by (simp add: crawlPage.simps)
    qed
  qed
qed

lemma crawlEach_length: "length (fst (crawlEach w cfg b s i urls)) = length urls"
proof (induction urls arbitrary: b i)
  case Nil
  show ?case by simp
next
  case (Cons u rest)
  obtain x b1 where p: "crawlPage w cfg b u 0 (Some (s + int i)) = (x, b1)"
    by (cases "crawlPage w cfg b u 0 (Some (s + int i))")
  obtain rs b2 where e: "crawlEach w cfg b1 s (i + 1) rest = (rs, b2)"
    by (cases "crawlEach w cfg b1 s (i + 1) rest")
  have "length rs = length rest"
    using Cons.IH [of b1 "i + 1"] e by simp
  with p e show ?case
    by (cases x) simp_all
qed

lemma crawlEach_urls: "map resultUrlOf (fst (crawlEach w cfg b s i urls)) = urls"
proof (induction urls arbitrary: b i)
  case Nil
  show ?case by simp
next
  case (Cons u rest)
  obtain x b1 where p: "crawlPage w cfg b u 0 (Some (s + int i)) = (x, b1)"
    by (cases "crawlPage w cfg b u 0 (Some (s + int i))")
  obtain rs b2 where e: "crawlEach w cfg b1 s (i + 1) rest = (rs, b2)"
    by (cases "crawlEach w cfg b1 s (i + 1) rest")
  have rs: "map resultUrlOf rs = rest"
    using Cons.IH [of b1 "i + 1"] e by simp
  show ?case
  proof (cases x)
    case (Inl err)
    with p e rs show ?thesis by simp
  next
    case (Inr r)
    with p have "resultUrl r = u"
      using crawlPage_result by blast
    with Inr p e rs show ?thesis by simp
  qed
qed

lemma crawlEach_nth:
  "k < length urls \<Longrightarrow>
   fst (crawlEach w cfg b s i urls) ! k =
     (case fst (crawlPage w cfg (snd (crawlEach w cfg b s i (take k urls))) (urls ! k) 0
                  (Some (s + int (i + k)))) of
        Inr r \<Rightarrow> Success r
      | Inl e \<Rightarrow> Failure (urls ! k) (message e))"
proof (induction urls arbitrary: b i k)
  case Nil
  then show ?case by simp
next
  case (Cons u rest)
  obtain x b1 where p: "crawlPage w cfg b u 0 (Some (s + int i)) = (x, b1)"
    by (cases "crawlPage w cfg b u 0 (Some (s + int i))")
  show ?case
  proof (cases k)
    case 0
    with p show ?thesis
      by (cases x) (auto split: prod.splits)
  next
    case (Suc j)
    with Cons.prems have j: "j < length rest" by simp
    have first: "fst (crawlEach w cfg b s i (u # rest)) ! Suc j = fst (crawlEach w cfg b1 s (i + 1) rest) ! j"
      using p by (cases x) (auto split: prod.splits)
    have before: "snd (crawlEach w cfg b s i (take (Suc j) (u # rest))) = snd (crawlEach w cfg b1 s (i + 1) (take j rest))"
      using p by (cases x) (auto split: prod.splits)
    have nth: "(u # rest) ! Suc j = rest ! j"
      by simp
    have idx: "s + int (i + Suc j) = s + int (i + 1 + j)"
      by simp
    show ?thesis
      unfolding Suc first before nth idx by (rule Cons.IH [OF j])
  qed
qed

lemma crawlEach_index:
  assumes k: "k < length urls" and r: "fst (crawlEach w cfg b s i urls) ! k = Success r"
  shows "resultUrl r = urls ! k
    \<and> artifactPath w cfg (urls ! k) (Some (s + int (i + k))) (js ''.pdf'') = Inr (pdfPath r)
    \<and> artifactPath w cfg (urls ! k) (Some (s + int (i + k))) (js ''.txt'') = Inr (textPath r)"
proof -
  define b0 where "b0 = snd (crawlEach w cfg b s i (take k urls))"
  obtain x b1 where p: "crawlPage w cfg b0 (urls ! k) 0 (Some (s + int (i + k))) = (x, b1)"
    by (cases "crawlPage w cfg b0 (urls ! k) 0 (Some (s + int (i + k)))")
  from crawlEach_nth [OF k, of w cfg b s i] r p have "x = Inr r"
    by (cases x) (simp_all add: b0_def)
  with p show ?thesis
    using crawlPage_result by blast
qed


section \<open>Facts about the example site\<close>

lemma lesson_markdown:
  "querySelector markdownSelector ((lessonPage es)\<lparr>docHref := u\<rparr>) = Some markdownDiv"
proof -
  have "[] \<noteq> js ''markdown''"
    by (simp add: js_def)
  then show ?thesis
    by (simp add: querySelector_def documentElements_def markdownSelector_def lessonPage_def
        markdownDiv_def)
qed

lemma lesson_wait:
  "waitForContent (siteWorld served down) ((lessonPage es)\<lparr>docHref := u\<rparr>) = Inr ((lessonPage es)\<lparr>docHref := u\<rparr>)"
  by (simp add: waitForContent_def waitForSelector_def lesson_markdown siteWorld_def)

lemma site_artifactPath:
  "\<exists>p. artifactPath (siteWorld served down) cfg u index ext = Inr p"
  by (simp add: artifactPath_def fileStem_def siteWorld_def Let_def)

lemma splitOn_absent: "sep \<notin> set s \<Longrightarrow> splitOn sep s = [s]"
  by (induction s) auto

lemma site_pathJoin:
  assumes "0x2F \<notin> set name" and "name \<noteq> []" and "name \<noteq> js ''.''" and "name \<noteq> js ''..''"
  shows "pathJoin (siteWorld served down) (outputDir defaultConfig) name = js ''output/'' @ name"
proof -
  have pieces: "splitOn 0x2F name = [name]"
    using assms(1) by (rule splitOn_absent)
  have "last name \<in> set name"
    using assms(2) by simp
  with assms(1) have trailing: "last name \<noteq> 0x2F"
    by auto
  have "posixNormalize (js ''./output'' @ 0x2F # name) = js ''output'' @ 0x2F # name"
    using assms trailing by (simp add: posixNormalize_def Let_def pieces js_def)
  then show ?thesis
    using assms(2) by (simp add: siteWorld_def defaultConfig_def posixJoin_def js_def)
qed

lemma lessonText_length: "length (trim lessonText) = 119"
  by (simp add: lessonText_def js_def trim_def isWhiteSpace_def)

lemma lesson_markdownLength:
  "markdownLength (debug (extractPageInfo (siteWorld served down) ((lessonPage es)\<lparr>docHref := u\<rparr>))) = 119"
  by (simp add: extractPageInfo_def Let_def lesson_markdown)
    (simp add: siteWorld_def markdownDiv_def lessonText_length)

lemma body_stays:
  "\<not> matchesAny enhancedRemovals (Element (js ''body'') [] [] [] kids)"
  by (simp add: matchesAny_def enhancedRemovals_def js_def)

lemma lesson_print:
  "\<exists>l body. makePrintFriendly (siteWorld served down)
       (extractPageInfo (siteWorld served down) ((lessonPage es)\<lparr>docHref := u\<rparr>))
       (attached ((lessonPage es)\<lparr>docHref := u\<rparr>)) = (None, l)
     \<and> liveBody l = Some body"
proof -
  let ?w = "siteWorld served down"
  let ?d = "(lessonPage es)\<lparr>docHref := u\<rparr>"
  have short: "\<not> (markdownFound (debug (extractPageInfo ?w ?d))
      \<and> 1000 < markdownLength (debug (extractPageInfo ?w ?d)))"
    by (simp add: lesson_markdownLength)
  have body: "liveBody (attached ?d) = Some (Element (js ''body'') [] [] [] [markdownDiv, drawer es])"
    by (simp add: attached_def lessonPage_def)
  show ?thesis
    unfolding makePrintFriendly_plain [OF short]
    using removeFromDocument_body [OF body body_stays] by simp
qed

lemma site_attempt_ok:
  assumes "u \<notin> set down"
  shows "\<exists>r b'. attemptPage (siteWorld (lessonPage es) down) defaultConfig b u index = (Inr r, b')"
proof -
  let ?w = "siteWorld (lessonPage es) down"
  obtain p where p: "artifactPath ?w defaultConfig u index (js ''.pdf'') = Inr p"
    using site_artifactPath by blast
  obtain q where q: "artifactPath ?w defaultConfig u index (js ''.txt'') = Inr q"
    using site_artifactPath by blast
  have g: "goto ?w (clock b) u = Inr ((lessonPage es)\<lparr>docHref := u\<rparr>)"
    using assms by (simp add: siteWorld_def)
  have pf: "pdfFailure ?w t x = None" "writeFailure ?w t x = None" for t x
    by (simp_all add: siteWorld_def)
  have st: "pdfStrategy defaultConfig \<noteq> js ''clean''" "pdfStrategy defaultConfig \<noteq> js ''basic''"
    "pdfStrategy defaultConfig = js ''enhanced''"
    by (simp_all add: defaultConfig_def strategy_distinct)
  obtain l body where print: "makePrintFriendly ?w (extractPageInfo ?w ((lessonPage es)\<lparr>docHref := u\<rparr>))
       (attached ((lessonPage es)\<lparr>docHref := u\<rparr>)) = (None, l)"
    and body: "liveBody l = Some body"
    using lesson_print by blast
  obtain c where c: "updatedContent ?w l = Inr c"
    using updatedContent_body [OF body] by blast
  show ?thesis
    by (simp add: attemptPage_def Let_def g lesson_wait generatePDF_def p q st strategy_distinct
        generateEnhancedPDF_def print pf finalPageInfo_def c saveTextContent_def)
qed

lemma site_crawlPage_ok:
  assumes "u \<notin> set down"
  shows "\<exists>r b'. crawlPage (siteWorld (lessonPage es) down) defaultConfig b u k index = (Inr r, b')"
proof -
  obtain r b' where "attemptPage (siteWorld (lessonPage es) down) defaultConfig b u index = (Inr r, b')"
    using site_attempt_ok [OF assms] by blast
  then show ?thesis
    by (simp add: crawlPage.simps)
qed

lemma site_attempt_down:
  assumes "u \<in> set down"
  shows "attemptPage (siteWorld served down) cfg b u index
     = (Inl (OtherError (js ''net::ERR_CONNECTION_REFUSED'')), b\<lparr>clock := clock b + 1\<rparr>)"
  using assms by (simp add: attemptPage_def Let_def siteWorld_def)

lemma site_crawlPage_down:
  assumes "u \<in> set down"
  shows "fst (crawlPage (siteWorld served down) defaultConfig b u 0 index)
     = Inl (OtherError (js ''net::ERR_CONNECTION_REFUSED''))"
proof -
  have r: "retries defaultConfig = 3"
    by (simp add: defaultConfig_def)
  show ?thesis
    by (simp add: crawlPage.simps [of _ _ _ _ 0] crawlPage.simps [of _ _ _ _ "Suc 0"]
        crawlPage.simps [of _ _ _ _ "Suc (Suc 0)"] site_attempt_down [OF assms] r)
qed

lemma list5: "length xs = 5 \<Longrightarrow> xs = [xs ! 0, xs ! 1, xs ! 2, xs ! 3, xs ! 4]"
  by (auto simp: list_eq_iff_nth_eq less_Suc_eq numeral_eq_Suc)



lemma firstLong_none:
  "list_all (\<lambda>sel. \<not> selectorLong w d sel) sels \<Longrightarrow> firstLong w d sels = None"
  by (induction sels) (auto simp: selectorLong_def split: option.splits)

lemma firstLong_first:
  "i < length sels \<Longrightarrow> querySelector (sels ! i) d = Some el \<Longrightarrow> hasLongText w d el \<Longrightarrow>
   (\<forall>j<i. \<not> selectorLong w d (sels ! j)) \<Longrightarrow> firstLong w d sels = Some (sels ! i, el)"
proof (induction sels arbitrary: i)
  case Nil
  then show ?case by simp
next
  case (Cons sel sels)
  show ?case
  proof (cases i)
    case 0
    with Cons.prems show ?thesis by simp
  next
    case (Suc n)
    from Cons.prems(4) Suc have first: "\<not> selectorLong w d sel"
      by auto
    have rest: "\<forall>j<n. \<not> selectorLong w d (sels ! j)"
      using Cons.prems(4) Suc by auto
    have "firstLong w d sels = Some (sels ! n, el)"
      using Cons.prems Suc rest by (intro Cons.IH) auto
    with first Suc show ?thesis
      by (auto simp: selectorLong_def split: option.splits)
  qed
qed

lemma lessonText_long: "100 < length (trim lessonText)"
  by (simp add: lessonText_def js_def trim_def isWhiteSpace_def)

lemma site_long: "hasLongText (siteWorld served down) d (Element tag ident cls attrs [TextNode lessonText])"
  by (simp add: hasLongText_def siteWorld_def lessonText_long)

lemma tag_distinct:
  "js ''body'' \<noteq> js ''main''" "js ''div'' \<noteq> js ''main''" "js ''body'' \<noteq> js ''article''"
  "js ''div'' \<noteq> js ''article''" "js ''article'' \<noteq> js ''main''" "[] \<noteq> js ''markdown''"
  "js ''content'' \<noteq> js ''main-content''" "js ''main-content'' \<noteq> js ''content''"
  by (simp_all add: js_def)

lemma short_not_long: "\<not> hasLongText (siteWorld served down) d (Element tag ident cls attrs [TextNode (js ''Short'')])"
  by (simp add: hasLongText_def siteWorld_def js_def trim_def isWhiteSpace_def)

lemma selectLinks_zero_limit:
  "selectLinks (req\<lparr>maxPages := Some 0\<rparr>) links = selectLinks (req\<lparr>maxPages := None\<rparr>) links"
  by (simp add: selectLinks_def Let_def)

lemma filterLinks_length: "filterLinks w p links = Inr kept \<Longrightarrow> length kept \<le> length links"
  by (auto simp: filterLinks_def split: option.splits if_splits sum.splits)

lemma ten_nav:
  "extractNavigationLinks (siteWorld (lessonPage tenEntries) []) b base
     = (Inr (linksOf tenEntries),
        b\<lparr>clock := clock b + 1, page := attached ((lessonPage tenEntries)\<lparr>docHref := base\<rparr>)\<rparr>)"
  by (simp add: extractNavigationLinks_def Let_def siteWorld_def waitForSelector_def
      querySelector_def documentElements_def drawerSelector_def lessonPage_def markdownDiv_def
      drawer_def tenEntries_def collectLinks_def descendantsOf_def isContentLink_def
      uniqueLinks_def enumerate_eq_zip upt_rec linksOf_def trim_def isWhiteSpace_def
      sublist_code js_def)

lemma two_nav:
  "extractNavigationLinks (siteWorld (lessonPage twoEntries) []) b base
     = (Inr (linksOf twoEntries),
        b\<lparr>clock := clock b + 1, page := attached ((lessonPage twoEntries)\<lparr>docHref := base\<rparr>)\<rparr>)"
  by (simp add: extractNavigationLinks_def Let_def siteWorld_def waitForSelector_def
      querySelector_def documentElements_def drawerSelector_def lessonPage_def markdownDiv_def
      drawer_def twoEntries_def collectLinks_def descendantsOf_def isContentLink_def
      uniqueLinks_def enumerate_eq_zip upt_rec linksOf_def trim_def isWhiteSpace_def
      sublist_code js_def)

lemma site_crawlEach_ok:
  assumes k: "k < length urls" and up: "urls ! k \<notin> set down"
  shows "\<exists>r. fst (crawlEach (siteWorld (lessonPage es) down) defaultConfig b s i urls) ! k = Success r"
proof -
  let ?w = "siteWorld (lessonPage es) down"
  obtain r b' where "crawlPage ?w defaultConfig (snd (crawlEach ?w defaultConfig b s i (take k urls)))
      (urls ! k) 0 (Some (s + int (i + k))) = (Inr r, b')"
    using site_crawlPage_ok [OF up] by blast
  then show ?thesis
    using crawlEach_nth [OF k, of ?w defaultConfig b s i] by simp
qed

lemma list3: "length xs = 3 \<Longrightarrow> xs = [xs ! 0, xs ! 1, xs ! 2]"
  by (auto simp: list_eq_iff_nth_eq less_Suc_eq numeral_eq_Suc)

lemma list1: "length xs = Suc 0 \<Longrightarrow> xs = [xs ! 0]"
  by (auto simp: list_eq_iff_nth_eq)

lemma site_stems:
  "fileStem (siteWorld served down) (siteUrl ''/learn/p1'') = Inr (js ''learn-p1-2024-01-01'')"
  "fileStem (siteWorld served down) (siteUrl ''/learn/p6'') = Inr (js ''learn-p6-2024-01-01'')"
  "fileStem (siteWorld served down) (siteUrl ''/learn/p7'') = Inr (js ''learn-p7-2024-01-01'')"
  "fileStem (siteWorld served down) (siteUrl ''/learn/p8'') = Inr (js ''learn-p8-2024-01-01'')"
  by (simp_all add: fileStem_def siteWorld_def siteUrl_def isSafeChar_def Let_def js_def)

lemma ten_length: "length (linksOf tenEntries) = 10"
  by (simp add: linksOf_def tenEntries_def)

lemma ten_from_six:
  "map fullUrl (drop 5 (linksOf tenEntries))
     = [siteUrl ''/learn/p6'', siteUrl ''/learn/p7'', siteUrl ''/learn/p8'', siteUrl ''/learn/p9'',
        siteUrl ''/learn/p10'']"
  by (simp add: linksOf_def tenEntries_def siteUrl_def)

lemma ten_nonempty: "linksOf tenEntries \<noteq> []"
  by (simp add: linksOf_def tenEntries_def)

lemma two_links:
  "linksOf twoEntries =
     [\<lparr>href = js ''/learn/a'', linkText = js ''Scaling'', fullUrl = siteUrl ''/learn/a''\<rparr>,
      \<lparr>href = js ''/learn/b'', linkText = js ''Intro'', fullUrl = siteUrl ''/learn/b''\<rparr>]"
  by (simp add: linksOf_def twoEntries_def siteUrl_def)

lemma site_regExpI:
  "regExpI (siteWorld served down) p = Inr (\<lambda>s. sublist (map toLowerAscii p) (map toLowerAscii s))"
  by (simp add: siteWorld_def literalRegExpI_def)

lemma scal_matches:
  "sublist (map toLowerAscii (js ''scal'')) (map toLowerAscii (js ''Scaling''))"
  "\<not> sublist (map toLowerAscii (js ''scal'')) (map toLowerAscii (js ''/learn/a''))"
  "\<not> sublist (map toLowerAscii (js ''scal'')) (map toLowerAscii (js ''Intro''))"
  "\<not> sublist (map toLowerAscii (js ''scal'')) (map toLowerAscii (js ''/learn/b''))"
  by (simp_all add: js_def toLowerAscii_def sublist_code)

lemma hello_matches:
  "\<not> sublist (map toLowerAscii (js ''hello'')) (map toLowerAscii (js ''Scaling''))"
  "\<not> sublist (map toLowerAscii (js ''hello'')) (map toLowerAscii (js ''/learn/a''))"
  "\<not> sublist (map toLowerAscii (js ''hello'')) (map toLowerAscii (js ''Intro''))"
  "\<not> sublist (map toLowerAscii (js ''hello'')) (map toLowerAscii (js ''/learn/b''))"
  "sublist (map toLowerAscii (js ''hello'')) (map toLowerAscii (siteUrl ''/learn/a''))"
  "sublist (map toLowerAscii (js ''hello'')) (map toLowerAscii (siteUrl ''/learn/b''))"
  by (simp_all add: js_def siteUrl_def toLowerAscii_def sublist_code)

lemma pattern_nonempty: "js ''scal'' \<noteq> []" "js ''hello'' \<noteq> []"
  by (simp_all add: js_def)




text \<open>
  Under the enhanced strategy a body that carries one of the removed classes leaves the
  document with everything below it: the page is printed without a body, and the attempt
  ends when \<open>crawlPage\<close> reads \<open>document.body.innerText\<close>.
\<close>

lemma forum_body_removed:
  "liveBody (removeFromDocument enhancedRemovals (attached (forumPage\<lparr>docHref := u\<rparr>))) = None
   \<and> liveHead (removeFromDocument enhancedRemovals (attached (forumPage\<lparr>docHref := u\<rparr>))) = []"
  by (simp add: removeFromDocument_def attached_def forumPage_def matchesAny_def enhancedRemovals_def)

lemma forum_attempt:
  "fst (attemptPage (siteWorld forumPage []) defaultConfig b u index)
     = Inl (rejection (siteWorld forumPage []) BodyInnerText)"
proof -
  let ?w = "siteWorld forumPage []"
  let ?d = "forumPage\<lparr>docHref := u\<rparr>"
  let ?gone = "(removeFromDocument enhancedRemovals (attached ?d))
      \<lparr>liveHead := liveHead (removeFromDocument enhancedRemovals (attached ?d)) @ [printStyle]\<rparr>"
  obtain p where p: "artifactPath ?w defaultConfig u index (js ''.pdf'') = Inr p"
    using site_artifactPath by blast
  have g: "goto ?w (clock b) u = Inr ?d"
    by (simp add: siteWorld_def)
  have pf: "pdfFailure ?w t x = None" for t x
    by (simp add: siteWorld_def)
  have st: "pdfStrategy defaultConfig \<noteq> js ''clean''" "pdfStrategy defaultConfig \<noteq> js ''basic''"
    "pdfStrategy defaultConfig = js ''enhanced''"
    by (simp_all add: defaultConfig_def strategy_distinct)
  have found: "firstFound ?w ?d contentSelectors = Some (ByTag (js ''main''))"
    by (simp add: contentSelectors_def waitForSelector_def querySelector_def documentElements_def
        forumPage_def siteWorld_def js_def)
  have wait: "waitForContent ?w ?d = Inr ?d"
    by (simp add: waitForContent_def found split: sum.splits) (simp add: siteWorld_def)
  have md: "querySelector markdownSelector ?d = None"
    by (simp add: querySelector_def documentElements_def markdownSelector_def forumPage_def js_def)
  have "\<not> markdownFound (debug (extractPageInfo ?w ?d))"
    by (simp add: extractPageInfo_def Let_def md)
  then have print: "makePrintFriendly ?w (extractPageInfo ?w ?d) (attached ?d) = (None, ?gone)"
    by (intro makePrintFriendly_plain) simp
  have "updatedContent ?w ?gone = Inl (rejection ?w BodyInnerText)"
    by (simp add: updatedContent_def liveQuerySelector_def liveElements_def headElements_def
        forum_body_removed printStyle_def markdownSelector_def js_def)
  then show ?thesis
    by (simp add: attemptPage_def Let_def g wait generatePDF_def p st strategy_distinct
        generateEnhancedPDF_def print pf finalPageInfo_def)
qed

section \<open>Stripping twice\<close>

text \<open>
  \<^bold>\<open>Claim C7.\<close> Boilerplate stripping is idempotent: on a text whose white space is
  collapsed (as \<open>cleanText\<close> leaves every text, lemma \<open>cleanText_collapsed\<close>), applying
  the strip patterns in their order, each cutting from its first match to the end, and
  then collapsing and trimming the white space, gives a text that the same
  transformation leaves unchanged.
\<close>

theorem C7_strip_idempotent:
  "collapseWhitespace x = x \<Longrightarrow> stripBoilerplate (stripBoilerplate x) = stripBoilerplate x"
  by (rule stripBoilerplate_fixed) (simp add: collapseWhitespace_fixed_iff)

theorem C7_strip_idempotent_witness:
  "collapseWhitespace (js ''Caching basics Questions about it'') = js ''Caching basics Questions about it''
   \<and> stripBoilerplate (js ''Caching basics Questions about it'') = js ''Caching basics''
   \<and> stripBoilerplate (stripBoilerplate (js ''Caching basics Questions about it''))
       = stripBoilerplate (js ''Caching basics Questions about it'')"
proof -
  have h: "collapseWhitespace (js ''Caching basics Questions about it'') = js ''Caching basics Questions about it''"
    by (simp add: js_def isWhiteSpace_def)
  have v: "stripBoilerplate (js ''Caching basics Questions about it'') = js ''Caching basics''"
    by (simp add: js_def isWhiteSpace_def stripBoilerplate_def removeCommentSections_def
        commentPatterns_def trim_def)
  show ?thesis
    using h v C7_strip_idempotent [OF h] by simp
qed

section \<open>Reading time\<close>

text \<open>
  \<^bold>\<open>Claim C10.\<close> The reading time of every extracted page is an integer of at least 1,
  for the page information \<open>extractPageInfo\<close> returns and for the one \<open>crawlPage\<close> writes
  to the transcript (recomputed from the updated text under the enhanced strategy,
  whatever that text is), also when the text is empty: splitting on white space always
  yields at least one piece, the empty text yields exactly one, and the count is divided
  by 200 and rounded up.
\<close>

theorem C10_reading_time_at_least_one:
  "1 \<le> length (splitWhitespace s)
   \<and> splitWhitespace [] = [[]]
   \<and> readingTimeOf [] = 1
   \<and> 1 \<le> readingTime (metadata (extractPageInfo w d))
   \<and> 1 \<le> readingTime (metadata (withUpdatedContent (extractPageInfo w d) c))
   \<and> (\<forall>finalInfo. finalPageInfo w cfg l (extractPageInfo w d) = Inr finalInfo \<longrightarrow>
         1 \<le> readingTime (metadata finalInfo))"
proof -
  have "1 \<le> length (splitWhitespace s)"
    using splitWhitespace_nonempty [of s] by (cases "splitWhitespace s") simp_all
  moreover have "readingTimeOf [] = 1"
    by (simp add: readingTimeOf_def splitWhitespace_empty)
  moreover have e: "1 \<le> readingTime (metadata (extractPageInfo w d))"
    by (simp add: extractPageInfo_def Let_def readingTimeOf_Suc)
  moreover have u: "1 \<le> readingTime (metadata (withUpdatedContent info c))" for info c
    by (simp add: withUpdatedContent_def readingTimeOf_Suc)
  moreover have "1 \<le> readingTime (metadata finalInfo)"
    if "finalPageInfo w cfg l (extractPageInfo w d) = Inr finalInfo" for finalInfo
    using that e u by (auto simp: finalPageInfo_def split: if_splits sum.splits)
  ultimately show ?thesis
    by (simp add: splitWhitespace_empty)
qed

text \<open>
  A page with the text \<open>Coming soon\<close> under the enhanced strategy: the updated text is
  read from the body, it has two words, and the recomputed reading time is at least 1.
\<close>

theorem C10_reading_time_at_least_one_witness:
  "finalPageInfo (siteWorld shortMainPage []) defaultConfig (attached shortMainPage)
       (extractPageInfo (siteWorld shortMainPage []) shortMainPage)
     = Inr (withUpdatedContent (extractPageInfo (siteWorld shortMainPage []) shortMainPage)
              (js ''Coming soon''))
   \<and> splitWhitespace (js ''Coming soon'') = [js ''Coming'', js ''soon'']
   \<and> 1 \<le> readingTime (metadata (withUpdatedContent
          (extractPageInfo (siteWorld shortMainPage []) shortMainPage) (js ''Coming soon'')))"
proof -
  let ?w = "siteWorld shortMainPage []"
  let ?info = "extractPageInfo ?w shortMainPage"
  let ?final = "withUpdatedContent ?info (js ''Coming soon'')"
  have md: "liveQuerySelector markdownSelector (attached shortMainPage) = None"
    by (simp add: liveQuerySelector_def liveElements_def headElements_def attached_def
        markdownSelector_def shortMainPage_def js_def)
  have body: "liveBody (attached shortMainPage)
      = Some (Element (js ''body'') [] [] [] [Element (js ''main'') [] [] [] [TextNode (js ''Coming soon'')]])"
    by (simp add: attached_def shortMainPage_def)
  have trimmed: "trim (js ''Coming soon'') = js ''Coming soon''"
    by (simp add: trim_def isWhiteSpace_def js_def)
  have upd: "updatedContent ?w (attached shortMainPage) = Inr (js ''Coming soon'')"
    by (simp add: updatedContent_def md body siteWorld_def trimmed)
  have run: "finalPageInfo ?w defaultConfig (attached shortMainPage) ?info = Inr ?final"
    by (simp add: finalPageInfo_def defaultConfig_def upd)
  have words: "splitWhitespace (js ''Coming soon'') = [js ''Coming'', js ''soon'']"
    by (simp add: js_def, subst splitWhitespace.simps, simp add: isWhiteSpace_def,
        subst splitWhitespace.simps, simp add: isWhiteSpace_def)
  have least: "1 \<le> readingTime (metadata ?final)"
    using C10_reading_time_at_least_one [of "[]" ?w shortMainPage "[]" defaultConfig "attached shortMainPage"]
      run by blast
  from run words least show ?thesis
    by blast
qed

section \<open>The batch\<close>

text \<open>
  \<^bold>\<open>Claim C6.\<close> Batch partial-failure tolerance: for every list of URLs (every world,
  configuration, session and start index), \<open>crawlMultiplePages\<close> returns as many results
  as there are URLs, in the order of the input (the result at a position carries the URL
  at that position), and the result at position \<open>k\<close> is what \<open>crawlPage\<close> gave for that
  URL in the session the earlier URLs left: its page result, or, when it failed after its
  retries, a failure with the URL and the message of the error. No error of a page leaves
  the loop. The example is a batch of five URLs whose third is permanently down: four
  successes around one failure.
\<close>

theorem C6_batch:
  "length (fst (crawlMultiplePages w cfg b urls s)) = length urls
   \<and> map resultUrlOf (fst (crawlMultiplePages w cfg b urls s)) = urls
   \<and> (\<forall>k < length urls.
        fst (crawlMultiplePages w cfg b urls s) ! k =
          (case fst (crawlPage w cfg (snd (crawlMultiplePages w cfg b (take k urls) s)) (urls ! k) 0
                       (Some (s + int k))) of
             Inr r \<Rightarrow> Success r
           | Inl e \<Rightarrow> Failure (urls ! k) (message e)))"
  unfolding crawlMultiplePages_def
  using crawlEach_nth [of _ urls w cfg b s 0]
  by (simp add: crawlEach_length crawlEach_urls)

theorem C6_batch_witness:
  "\<exists>r1 r2 r4 r5.
     fst (crawlMultiplePages (siteWorld (lessonPage tenEntries) [siteUrl ''/learn/p3'']) defaultConfig
            freshSession fiveUrls 1)
     = [Success r1, Success r2,
        Failure (siteUrl ''/learn/p3'') (js ''net::ERR_CONNECTION_REFUSED''),
        Success r4, Success r5]"
proof -
  let ?w = "siteWorld (lessonPage tenEntries) [siteUrl ''/learn/p3'']"
  let ?rs = "fst (crawlMultiplePages ?w defaultConfig freshSession fiveUrls 1)"
  note all = C6_batch [of ?w defaultConfig freshSession fiveUrls 1]
  note nth = all [THEN conjunct2, THEN conjunct2, rule_format]
  have len: "length ?rs = 5"
    using all by (simp add: fiveUrls_def)
  have up: "fiveUrls ! k \<notin> set [siteUrl ''/learn/p3'']" if "k \<in> {0, 1, 3, 4}" for k
    using that by (auto simp: fiveUrls_def siteUrl_def js_def)
  have ok: "\<exists>r. ?rs ! k = Success r" if kk: "k \<in> {0, 1, 3, 4}" for k
  proof -
    have k: "k < length fiveUrls"
      using kk by (auto simp: fiveUrls_def)
    obtain r b' where "crawlPage ?w defaultConfig
        (snd (crawlMultiplePages ?w defaultConfig freshSession (take k fiveUrls) 1)) (fiveUrls ! k) 0
        (Some (1 + int k)) = (Inr r, b')"
      using site_crawlPage_ok [OF up [OF kk]] by blast
    then show ?thesis
      using nth [OF k] by simp
  qed
  have down: "?rs ! 2 = Failure (siteUrl ''/learn/p3'') (js ''net::ERR_CONNECTION_REFUSED'')"
  proof -
    have "fiveUrls ! 2 = siteUrl ''/learn/p3''"
      by (simp add: fiveUrls_def)
    moreover have "(2::nat) < length fiveUrls"
      by (simp add: fiveUrls_def)
    ultimately show ?thesis
      using nth [of 2] by (simp add: site_crawlPage_down)
  qed
  obtain r1 r2 r4 r5 where "?rs ! 0 = Success r1" "?rs ! 1 = Success r2" "?rs ! 3 = Success r4"
      "?rs ! 4 = Success r5"
    using ok [of 0] ok [of 1] ok [of 3] ok [of 4] by auto
  with down list5 [OF len] show ?thesis
    by metis
qed

section \<open>The content wait\<close>




section \<open>The choice of the content element\<close>

text \<open>
  \<^bold>\<open>Claim C2.\<close> The content element is chosen first-match-wins, and the choice is a
  function of the page. (1) When \<open>#markdown\<close> exists and its trimmed text has more than
  100 code units, it is chosen, whatever the fallback selectors match. (2) Otherwise the
  fallback selectors are probed in the order of their list, and the first whose element
  has a trimmed text of more than 100 code units is chosen: the selector at position
  \<open>i\<close> wins when no selector at an earlier position has a long text. (3) Otherwise the
  body is used, without the elements of the fixed chrome list. The selector chosen is the
  \<open>usedSelector\<close> of the page information, and the content is the cleaned and stripped
  text of the chosen element.
\<close>

theorem C2_selection_order:
  "(\<forall>el. querySelector markdownSelector d = Some el \<and> hasLongText w d el
        \<longrightarrow> selectMainContent w d = (Some markdownSelector, el))
   \<and> (\<forall>i el. \<not> selectorLong w d markdownSelector \<and> i < length contentSelectors
          \<and> querySelector (contentSelectors ! i) d = Some el \<and> hasLongText w d el
          \<and> (\<forall>j<i. \<not> selectorLong w d (contentSelectors ! j))
        \<longrightarrow> selectMainContent w d = (Some (contentSelectors ! i), el))
   \<and> (\<not> selectorLong w d markdownSelector
        \<and> list_all (\<lambda>sel. \<not> selectorLong w d sel) contentSelectors
        \<longrightarrow> selectMainContent w d = (None, removeMatching chromeSelectors (docBody d)))
   \<and> usedSelector (debug (extractPageInfo w d)) = fst (selectMainContent w d)
   \<and> content (extractPageInfo w d)
       = stripBoilerplate (cleanText (mainContentText w d (selectMainContent w d)))"
proof (intro conjI allI impI)
  fix el
  assume "querySelector markdownSelector d = Some el \<and> hasLongText w d el"
  then show "selectMainContent w d = (Some markdownSelector, el)"
    by (simp add: selectMainContent_def)
next
  fix i el
  assume a: "\<not> selectorLong w d markdownSelector \<and> i < length contentSelectors
          \<and> querySelector (contentSelectors ! i) d = Some el \<and> hasLongText w d el
          \<and> (\<forall>j<i. \<not> selectorLong w d (contentSelectors ! j))"
  then have "firstLong w d contentSelectors = Some (contentSelectors ! i, el)"
    by (intro firstLong_first) auto
  with a show "selectMainContent w d = (Some (contentSelectors ! i), el)"
    by (auto simp: selectMainContent_def selectorLong_def split: option.splits)
next
  assume a: "\<not> selectorLong w d markdownSelector
        \<and> list_all (\<lambda>sel. \<not> selectorLong w d sel) contentSelectors"
  then have "firstLong w d contentSelectors = None"
    by (intro firstLong_none) auto
  with a show "selectMainContent w d = (None, removeMatching chromeSelectors (docBody d))"
    by (auto simp: selectMainContent_def selectorLong_def split: option.splits)
next
  show "usedSelector (debug (extractPageInfo w d)) = fst (selectMainContent w d)"
    by (simp add: extractPageInfo_def Let_def)
next
  show "content (extractPageInfo w d)
       = stripBoilerplate (cleanText (mainContentText w d (selectMainContent w d)))"
    by (simp add: extractPageInfo_def Let_def)
qed

text \<open>
  Three pages of the example site: one where \<open>main\<close> and \<open>#markdown\<close> both have a long
  text (\<open>#markdown\<close> wins, although \<open>main\<close> comes first in the document); one where
  \<open>#markdown\<close> is short and \<open>.content\<close> and \<open>article\<close> are long (\<open>article\<close> wins: it
  is earlier in the list, although later in the document); one with no content element
  (the body without its \<open>nav\<close>).
\<close>

theorem C2_selection_order_witness:
  "selectMainContent (siteWorld bothPage []) bothPage = (Some markdownSelector, markdownDiv)
   \<and> selectMainContent (siteWorld fallbackPage []) fallbackPage = (Some (ByTag (js ''article'')), articleElement)
   \<and> selectMainContent (siteWorld chromePage []) chromePage
       = (None, Element (js ''body'') [] [] [] [Element (js ''p'') [] [] [] [TextNode (js ''Coming soon'')]])"
proof -
  have a: "querySelector markdownSelector bothPage = Some markdownDiv
      \<and> hasLongText (siteWorld bothPage []) bothPage markdownDiv"
    by (simp add: querySelector_def documentElements_def markdownSelector_def bothPage_def
        markdownDiv_def site_long tag_distinct)
  have 1: "selectMainContent (siteWorld bothPage []) bothPage = (Some markdownSelector, markdownDiv)"
    using C2_selection_order [of bothPage "siteWorld bothPage []"] a by blast
  let ?w = "siteWorld fallbackPage []"
  have b0: "\<not> selectorLong ?w fallbackPage markdownSelector"
    by (simp add: selectorLong_def querySelector_def documentElements_def markdownSelector_def
        fallbackPage_def short_not_long tag_distinct)
  have b1: "\<not> selectorLong ?w fallbackPage (contentSelectors ! j)" if "j < 2" for j
  proof -
    from that have "j = 0 \<or> j = 1" by auto
    then show ?thesis
      by (auto simp: selectorLong_def querySelector_def documentElements_def contentSelectors_def
          fallbackPage_def articleElement_def tag_distinct)
  qed
  have b2: "querySelector (contentSelectors ! 2) fallbackPage = Some articleElement
      \<and> hasLongText ?w fallbackPage articleElement \<and> contentSelectors ! 2 = ByTag (js ''article'')
      \<and> (2::nat) < length contentSelectors"
    by (simp add: querySelector_def documentElements_def contentSelectors_def
        fallbackPage_def articleElement_def tag_distinct site_long)
  have "selectMainContent ?w fallbackPage = (Some (contentSelectors ! 2), articleElement)"
    using C2_selection_order [of fallbackPage ?w] b0 b1 b2 by blast
  then have 2: "selectMainContent ?w fallbackPage = (Some (ByTag (js ''article'')), articleElement)"
    using b2 by simp
  let ?v = "siteWorld chromePage []"
  have c0: "\<not> selectorLong ?v chromePage markdownSelector
      \<and> list_all (\<lambda>sel. \<not> selectorLong ?v chromePage sel) contentSelectors"
    by (simp add: selectorLong_def querySelector_def documentElements_def markdownSelector_def
        contentSelectors_def chromePage_def js_def)
  have c1: "removeMatching chromeSelectors (docBody chromePage)
      = Element (js ''body'') [] [] [] [Element (js ''p'') [] [] [] [TextNode (js ''Coming soon'')]]"
    by (simp add: chromePage_def chromeSelectors_def matchesAny_def js_def)
  have 3: "selectMainContent ?v chromePage
       = (None, Element (js ''body'') [] [] [] [Element (js ''p'') [] [] [] [TextNode (js ''Coming soon'')]])"
    using C2_selection_order [of chromePage ?v] c0 c1 by simp
  show ?thesis
    using 1 2 3 by simp
qed

section \<open>Resuming from a start index\<close>

text \<open>
  \<^bold>\<open>Claim C3, as amended.\<close> Let the filtered link list have \<open>n\<close> links, and let the
  request give a start index \<open>s\<close> with \<open>1 < s \<le> n\<close> and a page limit \<open>m \<ge> 1\<close>. Then
  \<open>crawlFromNavigation\<close> returns normally with exactly \<open>min(s+m-1, n) - s + 1\<close> results;
  the result at position \<open>k\<close> (from 0) is for the link at position \<open>s + k\<close> of the
  filtered list; and when it is a success, the names of its PDF and of its transcript
  start with the index \<open>s + k\<close> and a hyphen, followed by the stem made from the URL and
  the date.
\<close>

theorem C3_resume:
  assumes nav: "extractNavigationLinks w b baseUrl = (Inr links, b1)"
    and fl: "filterLinks w pattern links = Inr filtered"
    and s: "1 < s" "s \<le> int (length filtered)"
    and m: "1 \<le> m"
  shows "\<exists>results b2.
     crawlFromNavigation w cfg b baseUrl
       \<lparr>maxPages = Some m, filterPattern = pattern, startIndex = Some s\<rparr> = (Inr results, b2)
     \<and> int (length results) = min (s + m - 1) (int (length filtered)) - s + 1
     \<and> (\<forall>k<length results.
          resultUrlOf (results ! k) = fullUrl (filtered ! (nat (s - 1) + k))
          \<and> (\<forall>r. results ! k = Success r \<longrightarrow>
                (\<exists>stem. fileStem w (fullUrl (filtered ! (nat (s - 1) + k))) = Inr stem
                   \<and> pdfPath r = pathJoin w (outputDir cfg) (showInt (s + int k) @ js ''-'' @ stem @ js ''.pdf'')
                   \<and> textPath r = pathJoin w (outputDir cfg) (showInt (s + int k) @ js ''-'' @ stem @ js ''.txt''))))"
proof -
  let ?req = "\<lparr>maxPages = Some m, filterPattern = pattern, startIndex = Some s\<rparr>"
  define chosen where "chosen = take (nat m) (drop (nat (s - 1)) filtered)"
  define urls where "urls = map fullUrl chosen"
  have ne: "links \<noteq> []"
    using filterLinks_length [OF fl] s by auto
  have sel: "selectLinks ?req filtered = Some chosen"
    using s m by (auto simp: selectLinks_def sliceTo_def chosen_def Let_def)
  have start: "fileStartIndex ?req = s"
    using s by (simp add: fileStartIndex_def)
  obtain results b2 where c: "crawlMultiplePages w cfg b1 urls s = (results, b2)"
    by (cases "crawlMultiplePages w cfg b1 urls s")
  have run: "crawlFromNavigation w cfg b baseUrl ?req = (Inr results, b2)"
    using nav fl ne sel start c by (simp add: crawlFromNavigation_def urls_def)
  have res: "results = fst (crawlEach w cfg b1 s 0 urls)"
    using c by (simp add: crawlMultiplePages_def)
  have len: "length results = length chosen"
    by (simp add: res crawlEach_length urls_def)
  have "length chosen = min (nat m) (length filtered - nat (s - 1))"
    by (simp add: chosen_def)
  then have count: "int (length results) = min (s + m - 1) (int (length filtered)) - s + 1"
    using s m len by linarith
  have each: "resultUrlOf (results ! k) = fullUrl (filtered ! (nat (s - 1) + k))
      \<and> (\<forall>r. results ! k = Success r \<longrightarrow>
            (\<exists>stem. fileStem w (fullUrl (filtered ! (nat (s - 1) + k))) = Inr stem
               \<and> pdfPath r = pathJoin w (outputDir cfg) (showInt (s + int k) @ js ''-'' @ stem @ js ''.pdf'')
               \<and> textPath r = pathJoin w (outputDir cfg) (showInt (s + int k) @ js ''-'' @ stem @ js ''.txt'')))"
    if k: "k < length results" for k
  proof -
    have kc: "k < length chosen"
      using k len by simp
    then have ku: "k < length urls"
      by (simp add: urls_def)
    have "nat (s - 1) \<le> length filtered"
      using s by linarith
    then have u: "urls ! k = fullUrl (filtered ! (nat (s - 1) + k))"
      using kc by (simp add: urls_def chosen_def)
    have "map resultUrlOf results ! k = urls ! k"
      by (simp add: res crawlEach_urls)
    then have first: "resultUrlOf (results ! k) = fullUrl (filtered ! (nat (s - 1) + k))"
      using k u by simp
    have second: "\<exists>stem. fileStem w (fullUrl (filtered ! (nat (s - 1) + k))) = Inr stem
               \<and> pdfPath r = pathJoin w (outputDir cfg) (showInt (s + int k) @ js ''-'' @ stem @ js ''.pdf'')
               \<and> textPath r = pathJoin w (outputDir cfg) (showInt (s + int k) @ js ''-'' @ stem @ js ''.txt'')"
      if r: "results ! k = Success r" for r
    proof -
      have "artifactPath w cfg (urls ! k) (Some (s + int (0 + k))) (js ''.pdf'') = Inr (pdfPath r)
          \<and> artifactPath w cfg (urls ! k) (Some (s + int (0 + k))) (js ''.txt'') = Inr (textPath r)"
        using crawlEach_index [OF ku, of w cfg b1 s 0 r] r by (simp add: res)
      then show ?thesis
        unfolding u by (auto simp: artifactPath_def indexPrefix_def split: sum.splits)
    qed
    show ?thesis
      using first second by blast
  qed
  show ?thesis
    using run count each by blast
qed

text \<open>
  The example of the claim: ten links, start index 6, limit 3. The three results are the
  pages 6, 7 and 8, with the index prefixes \<open>6-\<close>, \<open>7-\<close> and \<open>8-\<close>.
\<close>

theorem C3_resume_witness:
  "\<exists>r6 r7 r8 b2.
     crawlFromNavigation (siteWorld (lessonPage tenEntries) []) defaultConfig freshSession
       (siteUrl ''/learn/p1'') \<lparr>maxPages = Some 3, filterPattern = None, startIndex = Some 6\<rparr>
       = (Inr [Success r6, Success r7, Success r8], b2)
     \<and> resultUrl r6 = siteUrl ''/learn/p6'' \<and> pdfPath r6 = js ''output/6-learn-p6-2024-01-01.pdf''
     \<and> resultUrl r7 = siteUrl ''/learn/p7'' \<and> pdfPath r7 = js ''output/7-learn-p7-2024-01-01.pdf''
     \<and> resultUrl r8 = siteUrl ''/learn/p8'' \<and> pdfPath r8 = js ''output/8-learn-p8-2024-01-01.pdf''"
proof -
  let ?w = "siteWorld (lessonPage tenEntries) []"
  let ?req = "\<lparr>maxPages = Some 3, filterPattern = None, startIndex = Some 6\<rparr>"
  let ?b1 = "freshSession\<lparr>clock := clock freshSession + 1,
      page := attached ((lessonPage tenEntries)\<lparr>docHref := siteUrl ''/learn/p1''\<rparr>)\<rparr>"
  let ?urls = "[siteUrl ''/learn/p6'', siteUrl ''/learn/p7'', siteUrl ''/learn/p8'']"
  have fl: "filterLinks ?w None (linksOf tenEntries) = Inr (linksOf tenEntries)"
    by (simp add: filterLinks_def)
  have hyps: "(1::int) < 6" "(6::int) \<le> int (length (linksOf tenEntries))" "(1::int) \<le> 3"
    by (simp_all add: ten_length)
  obtain results b2 where run: "crawlFromNavigation ?w defaultConfig freshSession (siteUrl ''/learn/p1'') ?req
        = (Inr results, b2)"
    and count: "int (length results) = min (6 + 3 - 1) (int (length (linksOf tenEntries))) - 6 + 1"
    and each: "\<And>k. k < length results \<Longrightarrow>
          resultUrlOf (results ! k) = fullUrl (linksOf tenEntries ! (nat (6 - 1) + k))
          \<and> (\<forall>r. results ! k = Success r \<longrightarrow>
                (\<exists>stem. fileStem ?w (fullUrl (linksOf tenEntries ! (nat (6 - 1) + k))) = Inr stem
                   \<and> pdfPath r = pathJoin ?w (outputDir defaultConfig) (showInt (6 + int k) @ js ''-'' @ stem @ js ''.pdf'')
                   \<and> textPath r = pathJoin ?w (outputDir defaultConfig) (showInt (6 + int k) @ js ''-'' @ stem @ js ''.txt'')))"
    using C3_resume [OF ten_nav fl hyps, of defaultConfig] by blast
  have len: "length results = 3"
    using count by (simp add: ten_length)
  have sel: "selectLinks ?req (linksOf tenEntries) = Some (take 3 (drop 5 (linksOf tenEntries)))"
    by (simp add: selectLinks_def sliceTo_def ten_length)
  have "crawlFromNavigation ?w defaultConfig freshSession (siteUrl ''/learn/p1'') ?req
      = (case crawlMultiplePages ?w defaultConfig ?b1 ?urls 6 of (rs, b') \<Rightarrow> (Inr rs, b'))"
    by (simp add: crawlFromNavigation_def ten_nav fl ten_nonempty sel fileStartIndex_def
        take_map [symmetric] ten_from_six)
  with run have res: "results = fst (crawlEach ?w defaultConfig ?b1 6 0 ?urls)"
    by (simp add: crawlMultiplePages_def split: prod.splits)
  have up: "?urls ! k \<notin> set []" for k
    by simp
  have "\<exists>r. results ! 0 = Success r"
    unfolding res by (rule site_crawlEach_ok) simp_all
  then obtain r6 where r6: "results ! 0 = Success r6"
    by blast
  have "\<exists>r. results ! 1 = Success r"
    unfolding res by (rule site_crawlEach_ok) simp_all
  then obtain r7 where r7: "results ! 1 = Success r7"
    by blast
  have "\<exists>r. results ! 2 = Success r"
    unfolding res by (rule site_crawlEach_ok) simp_all
  then obtain r8 where r8: "results ! 2 = Success r8"
    by blast
  have links: "fullUrl (linksOf tenEntries ! 5) = siteUrl ''/learn/p6''"
    "fullUrl (linksOf tenEntries ! 6) = siteUrl ''/learn/p7''"
    "fullUrl (linksOf tenEntries ! 7) = siteUrl ''/learn/p8''"
    by (simp_all add: linksOf_def tenEntries_def siteUrl_def)
  have digits: "showInt 6 = js ''6''" "showInt 7 = js ''7''" "showInt 8 = js ''8''"
    by (simp_all add: showInt_def showNat.simps js_def)
  have join: "pathJoin ?w (outputDir defaultConfig) (js ''6'' @ js ''-'' @ js ''learn-p6-2024-01-01'' @ js ''.pdf'')
       = js ''output/6-learn-p6-2024-01-01.pdf''"
    "pathJoin ?w (outputDir defaultConfig) (js ''7'' @ js ''-'' @ js ''learn-p7-2024-01-01'' @ js ''.pdf'')
       = js ''output/7-learn-p7-2024-01-01.pdf''"
    "pathJoin ?w (outputDir defaultConfig) (js ''8'' @ js ''-'' @ js ''learn-p8-2024-01-01'' @ js ''.pdf'')
       = js ''output/8-learn-p8-2024-01-01.pdf''"
    by (subst site_pathJoin; simp add: js_def)+
  have p6: "resultUrl r6 = siteUrl ''/learn/p6'' \<and> pdfPath r6 = js ''output/6-learn-p6-2024-01-01.pdf''"
    using each [of 0] r6 len by (simp add: links site_stems digits join)
  have p7: "resultUrl r7 = siteUrl ''/learn/p7'' \<and> pdfPath r7 = js ''output/7-learn-p7-2024-01-01.pdf''"
    using each [of 1] r7 len by (simp add: links site_stems digits join)
  have p8: "resultUrl r8 = siteUrl ''/learn/p8'' \<and> pdfPath r8 = js ''output/8-learn-p8-2024-01-01.pdf''"
    using each [of 2] r8 len by (simp add: links site_stems digits join)
  have "results = [Success r6, Success r7, Success r8]"
    using list3 [OF len] r6 r7 r8 by simp
  with run p6 p7 p8 show ?thesis
    by blast
qed

text \<open>
  The claim as stated, for every page limit, fails at the limit 0: \<open>maxPages && ...\<close> is
  false for 0, so nothing is cut (lemma \<open>selectLinks_zero_limit\<close>, for every request and
  every list), and the run from index 6 of ten links crawls the five links 6 to 10, where
  the claim states the positions 6 through \<open>min(6+0-1, 10)\<close>, none.
\<close>

theorem C3_zero_limit_counterexample:
  "\<exists>results b2.
     crawlFromNavigation (siteWorld (lessonPage tenEntries) []) defaultConfig freshSession
       (siteUrl ''/learn/p1'') \<lparr>maxPages = Some 0, filterPattern = None, startIndex = Some 6\<rparr>
       = (Inr results, b2)
     \<and> length results = 5
     \<and> int (length results) \<noteq> claimedCount 6 0 10"
proof -
  let ?w = "siteWorld (lessonPage tenEntries) []"
  let ?req = "\<lparr>maxPages = Some 0, filterPattern = None, startIndex = Some 6\<rparr>"
  let ?b1 = "freshSession\<lparr>clock := clock freshSession + 1,
      page := attached ((lessonPage tenEntries)\<lparr>docHref := siteUrl ''/learn/p1''\<rparr>)\<rparr>"
  have fl: "filterLinks ?w None (linksOf tenEntries) = Inr (linksOf tenEntries)"
    by (simp add: filterLinks_def)
  have sel: "selectLinks ?req (linksOf tenEntries) = Some (drop 5 (linksOf tenEntries))"
    by (simp add: selectLinks_def ten_length)
  obtain rs b2 where c: "crawlMultiplePages ?w defaultConfig ?b1 (map fullUrl (drop 5 (linksOf tenEntries))) 6 = (rs, b2)"
    by (cases "crawlMultiplePages ?w defaultConfig ?b1 (map fullUrl (drop 5 (linksOf tenEntries))) 6")
  have run: "crawlFromNavigation ?w defaultConfig freshSession (siteUrl ''/learn/p1'') ?req = (Inr rs, b2)"
    using c by (simp add: crawlFromNavigation_def ten_nav fl ten_nonempty sel fileStartIndex_def)
  have "rs = fst (crawlEach ?w defaultConfig ?b1 6 0 (map fullUrl (drop 5 (linksOf tenEntries))))"
    using c by (simp add: crawlMultiplePages_def)
  then have l: "length rs = 5"
    by (simp add: crawlEach_length ten_length)
  have "int (length rs) \<noteq> claimedCount 6 0 10"
    by (simp add: l claimedCount_def)
  with run l show ?thesis
    by blast
qed

section \<open>The filter\<close>

text \<open>
  \<^bold>\<open>Claim C4, as amended.\<close> With a filter pattern that is not empty and compiles,
  \<open>crawlFromNavigation\<close> keeps exactly the discovered links for which the pattern,
  compiled with the flag \<open>i\<close>, matches the display text or the \<open>href\<close> of the link (the
  path as the anchor gives it, not the resolved absolute URL), in their order, and crawls
  the resolved URLs of these links, numbered from 1.
\<close>

theorem C4_filter_text_or_href:
  assumes nav: "extractNavigationLinks w b baseUrl = (Inr links, b1)"
    and re: "regExpI w p = Inr test"
    and p: "p \<noteq> []"
  shows "filterLinks w (Some p) links = Inr (filter (\<lambda>link. test (linkText link) \<or> test (href link)) links)
    \<and> crawlFromNavigation w cfg b baseUrl \<lparr>maxPages = None, filterPattern = Some p, startIndex = None\<rparr>
        = (case crawlMultiplePages w cfg b1
                  (map fullUrl (filter (\<lambda>link. test (linkText link) \<or> test (href link)) links)) 1 of
             (results, b2) \<Rightarrow> (Inr results, b2))"
proof -
  have f: "filterLinks w (Some p) links = Inr (filter (\<lambda>link. test (linkText link) \<or> test (href link)) links)"
    using re p by (simp add: filterLinks_def)
  have sel: "selectLinks \<lparr>maxPages = None, filterPattern = Some p, startIndex = None\<rparr> xs = Some xs" for xs
    by (simp add: selectLinks_def)
  have st: "fileStartIndex \<lparr>maxPages = None, filterPattern = Some p, startIndex = None\<rparr> = 1"
    by (simp add: fileStartIndex_def)
  show ?thesis
  proof (cases "links = []")
    case True
    with nav f show ?thesis
      by (simp add: crawlFromNavigation_def crawlMultiplePages_def)
  next
    case False
    with nav f sel st show ?thesis
      by (simp add: crawlFromNavigation_def)
  qed
qed

text \<open>
  The example of the claim: of the links Scaling (\<open>/learn/a\<close>) and Intro (\<open>/learn/b\<close>),
  the pattern \<open>scal\<close> keeps the first only, and that page is crawled.
\<close>

theorem C4_filter_text_or_href_witness:
  "filterLinks (siteWorld (lessonPage twoEntries) []) (Some (js ''scal'')) (linksOf twoEntries)
     = Inr [\<lparr>href = js ''/learn/a'', linkText = js ''Scaling'', fullUrl = siteUrl ''/learn/a''\<rparr>]
   \<and> (\<exists>r b2.
        crawlFromNavigation (siteWorld (lessonPage twoEntries) []) defaultConfig freshSession
          (siteUrl ''/learn/a'') \<lparr>maxPages = None, filterPattern = Some (js ''scal''), startIndex = None\<rparr>
          = (Inr [Success r], b2)
        \<and> resultUrl r = siteUrl ''/learn/a'')"
proof -
  let ?w = "siteWorld (lessonPage twoEntries) []"
  let ?test = "\<lambda>s. sublist (map toLowerAscii (js ''scal'')) (map toLowerAscii s)"
  let ?b1 = "freshSession\<lparr>clock := clock freshSession + 1,
      page := attached ((lessonPage twoEntries)\<lparr>docHref := siteUrl ''/learn/a''\<rparr>)\<rparr>"
  note inst = C4_filter_text_or_href [where w = ?w and b = freshSession
      and baseUrl = "siteUrl ''/learn/a''" and cfg = defaultConfig and p = "js ''scal''",
      OF two_nav site_regExpI pattern_nonempty(1)]
  have kept: "filter (\<lambda>link. ?test (linkText link) \<or> ?test (href link)) (linksOf twoEntries)
      = [\<lparr>href = js ''/learn/a'', linkText = js ''Scaling'', fullUrl = siteUrl ''/learn/a''\<rparr>]"
    by (simp add: two_links scal_matches)
  have first: "filterLinks ?w (Some (js ''scal'')) (linksOf twoEntries)
     = Inr [\<lparr>href = js ''/learn/a'', linkText = js ''Scaling'', fullUrl = siteUrl ''/learn/a''\<rparr>]"
    using inst [THEN conjunct1] by (simp only: kept)
  obtain rs b2 where c: "crawlMultiplePages ?w defaultConfig ?b1 [siteUrl ''/learn/a''] 1 = (rs, b2)"
    by (cases "crawlMultiplePages ?w defaultConfig ?b1 [siteUrl ''/learn/a''] 1")
  then have res: "rs = fst (crawlEach ?w defaultConfig ?b1 1 0 [siteUrl ''/learn/a''])"
    by (simp add: crawlMultiplePages_def)
  have run: "crawlFromNavigation ?w defaultConfig freshSession (siteUrl ''/learn/a'')
      \<lparr>maxPages = None, filterPattern = Some (js ''scal''), startIndex = None\<rparr> = (Inr rs, b2)"
    using inst [THEN conjunct2] c by (simp only: kept list.map navLink.simps prod.case)
  have "length rs = Suc 0"
    by (simp add: res crawlEach_length del: crawlEach.simps)
  then have one: "rs = [rs ! 0]"
    by (rule list1)
  have "\<exists>r. rs ! 0 = Success r"
    unfolding res by (rule site_crawlEach_ok) simp_all
  then obtain r where r: "rs ! 0 = Success r"
    by blast
  have rs: "rs = [Success r]"
    using one r by simp
  have "map resultUrlOf rs = [siteUrl ''/learn/a'']"
    by (simp add: res crawlEach_urls del: crawlEach.simps)
  then have "resultUrl r = siteUrl ''/learn/a''"
    by (simp add: rs)
  with run rs first show ?thesis
    by blast
qed

text \<open>
  The claim as stated tests the resolved absolute URL. On the same two links the pattern
  \<open>hello\<close> matches both absolute URLs (\<open>https://www.hellointerview.com/learn/...\<close>), so
  the claim keeps both links; the code tests \<open>link.href\<close>, keeps none and crawls nothing.
\<close>

theorem C4_full_url_counterexample:
  "\<exists>test. regExpI (siteWorld (lessonPage twoEntries) []) (js ''hello'') = Inr test
     \<and> claimedFilter test (linksOf twoEntries) = linksOf twoEntries
     \<and> length (linksOf twoEntries) = 2
     \<and> filterLinks (siteWorld (lessonPage twoEntries) []) (Some (js ''hello'')) (linksOf twoEntries) = Inr []
     \<and> fst (crawlFromNavigation (siteWorld (lessonPage twoEntries) []) defaultConfig freshSession
          (siteUrl ''/learn/a'') \<lparr>maxPages = None, filterPattern = Some (js ''hello''), startIndex = None\<rparr>)
        = Inr []"
proof -
  let ?w = "siteWorld (lessonPage twoEntries) []"
  let ?test = "\<lambda>s. sublist (map toLowerAscii (js ''hello'')) (map toLowerAscii s)"
  have a: "claimedFilter ?test (linksOf twoEntries) = linksOf twoEntries"
    by (simp add: claimedFilter_def two_links hello_matches)
  have b: "filterLinks ?w (Some (js ''hello'')) (linksOf twoEntries) = Inr []"
    by (simp add: filterLinks_def site_regExpI pattern_nonempty two_links hello_matches)
  have c: "fst (crawlFromNavigation ?w defaultConfig freshSession
          (siteUrl ''/learn/a'') \<lparr>maxPages = None, filterPattern = Some (js ''hello''), startIndex = None\<rparr>)
        = Inr []"
    by (simp add: crawlFromNavigation_def two_nav b selectLinks_def crawlMultiplePages_def)
  have d: "length (linksOf twoEntries) = 2"
    by (simp add: two_links)
  show ?thesis
    using a b c d site_regExpI [of "lessonPage twoEntries" "[]" "js ''hello''"] by blast
qed

section \<open>A start index beyond the links\<close>

text \<open>
  \<^bold>\<open>Claim C5, as amended.\<close> When the start index exceeds the length of the filtered
  link list, \<open>crawlFromNavigation\<close> does not fail: it returns normally with the empty
  result list, and no page is crawled (the session is as the discovery of the links left
  it), whatever the page limit.
\<close>

theorem C5_start_beyond_links:
  assumes nav: "extractNavigationLinks w b baseUrl = (Inr links, b1)"
    and fl: "filterLinks w pattern links = Inr filtered"
    and s: "int (length filtered) < s"
  shows "crawlFromNavigation w cfg b baseUrl
           \<lparr>maxPages = limit, filterPattern = pattern, startIndex = Some s\<rparr> = (Inr [], b1)"
proof (cases "1 < s")
  case True
  with s have "selectLinks \<lparr>maxPages = limit, filterPattern = pattern, startIndex = Some s\<rparr> filtered = None"
    by (simp add: selectLinks_def)
  with nav fl show ?thesis
    by (simp add: crawlFromNavigation_def)
next
  case False
  with s have "length filtered = 0" and one: "s = 1"
    by linarith+
  then have e: "filtered = []"
    by simp
  have "selectLinks \<lparr>maxPages = limit, filterPattern = pattern, startIndex = Some s\<rparr> filtered = Some []"
    by (simp add: selectLinks_def e one sliceTo_def split: option.splits)
  with nav fl show ?thesis
    by (simp add: crawlFromNavigation_def crawlMultiplePages_def)
qed

text \<open>
  The claim as stated fails: with ten links and the start index 11 the run is not an
  error, it completes with the empty list.
\<close>

theorem C5_start_beyond_links_counterexample:
  "fst (crawlFromNavigation (siteWorld (lessonPage tenEntries) []) defaultConfig freshSession
          (siteUrl ''/learn/p1'') \<lparr>maxPages = None, filterPattern = None, startIndex = Some 11\<rparr>)
     = Inr []"
proof -
  have "selectLinks \<lparr>maxPages = None, filterPattern = None, startIndex = Some 11\<rparr> (linksOf tenEntries) = None"
    by (simp add: selectLinks_def ten_length)
  then show ?thesis
    by (simp add: crawlFromNavigation_def ten_nav filterLinks_def ten_nonempty)
qed

theorem C5_start_beyond_links_witness:
  "int (length (linksOf tenEntries)) < 12
   \<and> crawlFromNavigation (siteWorld (lessonPage tenEntries) []) defaultConfig freshSession
          (siteUrl ''/learn/p1'') \<lparr>maxPages = Some 3, filterPattern = None, startIndex = Some 12\<rparr>
     = (Inr [], freshSession\<lparr>clock := 1, page := attached ((lessonPage tenEntries)\<lparr>docHref := siteUrl ''/learn/p1''\<rparr>)\<rparr>)"
proof -
  let ?w = "siteWorld (lessonPage tenEntries) []"
  have fl: "filterLinks ?w None (linksOf tenEntries) = Inr (linksOf tenEntries)"
    by (simp add: filterLinks_def)
  have s: "int (length (linksOf tenEntries)) < 12"
    by (simp add: ten_length)
  show ?thesis
    using s C5_start_beyond_links [OF ten_nav fl s, of defaultConfig freshSession "siteUrl ''/learn/p1''" "Some 3"]
    by (simp add: freshSession_def)
qed

section \<open>The clean strategy\<close>

text \<open>
  \<^bold>\<open>Claim C8.\<close> Under the clean strategy \<open>generatePDF\<close> leaves the document of the loaded
  page as it is, whether the print succeeds or fails. When it succeeds, the one file it
  writes is the print of a new document on a page of its own, which is closed again, and
  that document holds nothing but the title, the source URL, the reading time, the
  description, the author and the text of the extracted page information, and the date.
  So a whole attempt of \<open>crawlPage\<close> under the clean strategy leaves the page as the
  content wait returned it: nothing is removed from it, its body is not replaced and no
  style is added.
\<close>

theorem C8_clean_leaves_page:
  assumes "pdfStrategy cfg = js ''clean''"
  shows "page (snd (generatePDF w cfg b u info index)) = page b
    \<and> (\<forall>p b'. generatePDF w cfg b u info index = (Inr p, b') \<longrightarrow>
          files b' = files b @ [(p, CleanPdf (cleanHTML w info))] \<and> openPages b' = openPages b)
    \<and> cleanHTML w info =
        \<lparr>cleanTitle = title info, cleanSource = url info, cleanDate = localeDate w,
         cleanReadingTime = readingTime (metadata info),
         cleanDescription = whenPresent (description (metadata info)),
         cleanAuthor = whenPresent (author (metadata info)),
         cleanContent = content info\<rparr>
    \<and> (\<forall>loaded expanded.
          goto w (clock b) u = Inr loaded \<and> waitForContent w loaded = Inr expanded \<longrightarrow>
          page (snd (attemptPage w cfg b u index)) = attached expanded)"
proof -
  have "page (snd (generatePDF w cfg b u info index)) = page b
    \<and> (\<forall>p b'. generatePDF w cfg b u info index = (Inr p, b') \<longrightarrow>
          files b' = files b @ [(p, CleanPdf (cleanHTML w info))] \<and> openPages b' = openPages b)"
    using assms
    by (auto simp: generatePDF_def generateCleanPDF_def Let_def split: sum.splits option.splits)
  moreover have "page (snd (attemptPage w cfg b u index)) = attached expanded"
    if "goto w (clock b) u = Inr loaded" "waitForContent w loaded = Inr expanded" for loaded expanded
    by (rule attemptPage_clean_page [OF assms that])
  ultimately show ?thesis
    by (simp add: cleanHTML_def)
qed

theorem C8_clean_leaves_page_witness:
  "pdfStrategy cleanConfig = js ''clean''
   \<and> generatePDF (siteWorld (lessonPage tenEntries) []) cleanConfig
        (freshSession\<lparr>page := attached (lessonPage tenEntries)\<rparr>) (siteUrl ''/learn/p1'') sampleInfo (Some 1)
      = (Inr (js ''output/1-learn-p1-2024-01-01.pdf''),
         freshSession\<lparr>page := attached (lessonPage tenEntries),
           files := [(js ''output/1-learn-p1-2024-01-01.pdf'',
                      CleanPdf \<lparr>cleanTitle = js ''Lesson'', cleanSource = siteUrl ''/learn/p1'',
                                cleanDate = js ''1/1/2024'', cleanReadingTime = 1,
                                cleanDescription = None, cleanAuthor = Some (js ''Staff''),
                                cleanContent = lessonText\<rparr>)]\<rparr>)
   \<and> page (snd (attemptPage (siteWorld (lessonPage tenEntries) []) cleanConfig freshSession
                   (siteUrl ''/learn/p1'') (Some 1)))
      = attached ((lessonPage tenEntries)\<lparr>docHref := siteUrl ''/learn/p1''\<rparr>)"
proof -
  let ?w = "siteWorld (lessonPage tenEntries) []"
  let ?b = "freshSession\<lparr>page := attached (lessonPage tenEntries)\<rparr>"
  let ?p = "js ''output/1-learn-p1-2024-01-01.pdf''"
  have st: "pdfStrategy cleanConfig = js ''clean''"
    by (simp add: cleanConfig_def)
  note inst = C8_clean_leaves_page [OF st, of ?w ?b "siteUrl ''/learn/p1''" sampleInfo "Some 1"]
  have dir: "outputDir cleanConfig = outputDir defaultConfig"
    by (simp add: cleanConfig_def)
  have join: "pathJoin ?w (outputDir defaultConfig) (js ''1'' @ js ''-'' @ js ''learn-p1-2024-01-01'' @ js ''.pdf'') = ?p"
    by (subst site_pathJoin; simp add: js_def)
  have one: "showNat (Suc 0) = js ''1''"
    by (simp add: showNat.simps js_def)
  have path: "artifactPath ?w cleanConfig (siteUrl ''/learn/p1'') (Some 1) (js ''.pdf'') = Inr ?p"
    by (simp add: artifactPath_def site_stems indexPrefix_def showInt_def one dir join)
  have nofail: "pdfFailure ?w t x = None" for t x
    by (simp add: siteWorld_def)
  obtain b' where run: "generatePDF ?w cleanConfig ?b (siteUrl ''/learn/p1'') sampleInfo (Some 1) = (Inr ?p, b')"
    by (simp add: generatePDF_def path st generateCleanPDF_def Let_def nofail)
  have pg: "page b' = attached (lessonPage tenEntries)"
    using inst [THEN conjunct1] run by (simp add: freshSession_def)
  have fs: "files b' = [(?p, CleanPdf (cleanHTML ?w sampleInfo))] \<and> openPages b' = []"
    using inst [THEN conjunct2, THEN conjunct1] run by (simp add: freshSession_def)
  have ck: "clock b' = 0"
    using run by (auto simp: generatePDF_def path st generateCleanPDF_def Let_def nofail freshSession_def)
  have doc: "cleanHTML ?w sampleInfo =
      \<lparr>cleanTitle = js ''Lesson'', cleanSource = siteUrl ''/learn/p1'', cleanDate = js ''1/1/2024'',
       cleanReadingTime = 1, cleanDescription = None, cleanAuthor = Some (js ''Staff''),
       cleanContent = lessonText\<rparr>"
    using inst [THEN conjunct2, THEN conjunct2, THEN conjunct1]
    by (simp add: sampleInfo_def whenPresent_def siteWorld_def) (simp add: js_def)
  have "b' = freshSession\<lparr>page := attached (lessonPage tenEntries),
           files := [(?p, CleanPdf (cleanHTML ?w sampleInfo))]\<rparr>"
    using pg fs ck by (cases b') (simp add: freshSession_def)
  moreover have "page (snd (attemptPage ?w cleanConfig freshSession (siteUrl ''/learn/p1'') (Some 1)))
      = attached ((lessonPage tenEntries)\<lparr>docHref := siteUrl ''/learn/p1''\<rparr>)"
  proof -
    have g: "goto ?w (clock freshSession) (siteUrl ''/learn/p1'')
        = Inr ((lessonPage tenEntries)\<lparr>docHref := siteUrl ''/learn/p1''\<rparr>)"
      by (simp add: siteWorld_def)
    show ?thesis
      using C8_clean_leaves_page [OF st, of ?w freshSession "siteUrl ''/learn/p1''" sampleInfo "Some 1"]
        g lesson_wait
      by blast
  qed
  ultimately show ?thesis
    using run st doc by simp
qed

section \<open>Cookie values in the log\<close>

text \<open>
  \<^bold>\<open>Claim C9\<close> does not hold of the code. \<open>setupAuthentication\<close> and \<open>crawlPage\<close> print
  \<open>value.substring(0, 20)\<close> followed by three dots; a value of at most 20 code units is
  therefore printed in full. For the cookie \<open>token\<close> with the value \<open>s3cr3t\<close> the lines
  are evaluated here: both contain the whole value.
\<close>

theorem C9_short_value_printed_in_full:
  "cookieLogLine 0 sampleCookie = js ''   1. token for .hellointerview.com (s3cr3t...)''
   \<and> setupAuthenticationLog (defaultConfig\<lparr>cookies := [sampleCookie]\<rparr>) ! 2 = cookieLogLine 0 sampleCookie
   \<and> pageCookieLogLine sampleCookie = js ''   - token: s3cr3t... (domain: .hellointerview.com)''
   \<and> sublist (cookieValue sampleCookie) (cookieLogLine 0 sampleCookie)
   \<and> sublist (cookieValue sampleCookie) (pageCookieLogLine sampleCookie)"
proof -
  have a: "cookieLogLine 0 sampleCookie = js ''   1. token for .hellointerview.com (s3cr3t...)''"
    by (simp add: cookieLogLine_def sampleCookie_def showNat.simps js_def)
  have b: "setupAuthenticationLog (defaultConfig\<lparr>cookies := [sampleCookie]\<rparr>) ! 2 = cookieLogLine 0 sampleCookie"
    by (simp add: setupAuthenticationLog_def enumerate_eq_zip)
  have c: "pageCookieLogLine sampleCookie = js ''   - token: s3cr3t... (domain: .hellointerview.com)''"
    by (simp add: pageCookieLogLine_def sampleCookie_def js_def)
  have d: "sublist (cookieValue sampleCookie) (cookieLogLine 0 sampleCookie)"
    unfolding a by (simp add: sampleCookie_def js_def sublist_code)
  have e: "sublist (cookieValue sampleCookie) (pageCookieLogLine sampleCookie)"
    unfolding c by (simp add: sampleCookie_def js_def sublist_code)
  show ?thesis
    using a b c d e by simp
qed

end
